theory Spec2Isabelle
  imports Main
begin

section \<open>Bytes\<close>

text \<open>
  Go's \<open>[]byte\<close> and \<open>string\<close> are sequences of 8-bit bytes; both are modelled as
  \<open>string\<close> (a list of \<open>char\<close>, each of which is one byte). The numeric value of a
  byte is read with \<open>byte\<close>.
\<close>

definition byte :: "char \<Rightarrow> nat" where
  "byte c = of_char c"

abbreviation newline :: char where
  "newline \<equiv> CHR 0x0A"

text \<open>\<open>bytes.HasPrefix(s, prefix)\<close>: \<open>len(s) >= len(prefix) && Equal(s[:len(prefix)], prefix)\<close>.\<close>

definition HasPrefix :: "string \<Rightarrow> string \<Rightarrow> bool" where
  "HasPrefix s pre \<longleftrightarrow> length pre \<le> length s \<and> take (length pre) s = pre"

section \<open>The standard library's time formatting\<close>

text \<open>
  \<open>main.go\<close> formats the current time three times with \<open>time.Time.Format\<close>: the snippet
  timestamp (layout given by \<open>-time_format\<close>), the file name (layout \<open>time.DateOnly\<close>) and
  the header (a layout into which the timezone name is concatenated). The layout
  language is therefore part of the program's behaviour, and it is modelled here after
  \<open>time/format.go\<close> of the Go standard library.

  A \<open>time.Time\<close> in its location is represented by the civil fields it presents there,
  the zone abbreviation and the zone offset in seconds east of UTC.
\<close>

record time =
  t_year :: int
  t_month :: nat
  t_day :: nat
  t_hour :: nat
  t_minute :: nat
  t_second :: nat
  t_nanosecond :: nat
  zone_name :: string
  zone_offset :: int

text \<open>
  Days between 1970-01-01 and the given date of the proleptic Gregorian calendar
  (negative before 1970). Go derives the calendar fields from a count of seconds; the
  model goes the other way, from the fields to the count.
\<close>

definition days_from_civil :: "int \<Rightarrow> nat \<Rightarrow> nat \<Rightarrow> int" where
  "days_from_civil y m d =
     (let y' = (if m \<le> 2 then y - 1 else y);
          era = y' div 400;
          yoe = y' - era * 400;
          mp = (if m > 2 then int m - 3 else int m + 9);
          doy = (153 * mp + 2) div 5 + int d - 1;
          doe = yoe * 365 + yoe div 4 - yoe div 100 + doy
      in era * 146097 + doe - 719468)"

text \<open>\<open>Time.Weekday\<close>, with Sunday = 0; 1970-01-01 was a Thursday.\<close>

definition weekday :: "time \<Rightarrow> nat" where
  "weekday t = nat ((days_from_civil (t_year t) (t_month t) (t_day t) + 4) mod 7)"

text \<open>\<open>Time.YearDay\<close>: 1 for January 1st.\<close>

definition year_day :: "time \<Rightarrow> int" where
  "year_day t =
     days_from_civil (t_year t) (t_month t) (t_day t) - days_from_civil (t_year t) 1 1 + 1"

text \<open>
  \<open>Time.IsZero\<close>: the instant is January 1, year 1, 00:00:00.000000000 UTC. That day is
  719162 days before 1970-01-01.
\<close>

definition abs_seconds :: "time \<Rightarrow> int" where
  "abs_seconds t =
     (days_from_civil (t_year t) (t_month t) (t_day t) + 719162) * 86400
     + int (t_hour t) * 3600 + int (t_minute t) * 60 + int (t_second t) - zone_offset t"

definition IsZero :: "time \<Rightarrow> bool" where
  "IsZero t \<longleftrightarrow> abs_seconds t = 0 \<and> t_nanosecond t = 0"

subsection \<open>Names of months and days\<close>

definition longDayNames :: "string list" where
  "longDayNames =
     [''Sunday'', ''Monday'', ''Tuesday'', ''Wednesday'', ''Thursday'', ''Friday'', ''Saturday'']"

definition longMonthNames :: "string list" where
  "longMonthNames =
     [''January'', ''February'', ''March'', ''April'', ''May'', ''June'', ''July'',
      ''August'', ''September'', ''October'', ''November'', ''December'']"

text \<open>Decimal digits of a natural number, most significant first.\<close>

fun digits_of :: "nat \<Rightarrow> string" where
  "digits_of n =
     (if n < 10 then [''0123456789'' ! n]
      else digits_of (n div 10) @ [''0123456789'' ! (n mod 10)])"

declare digits_of.simps [simp del]

text \<open>
  \<open>appendInt(b, x, width)\<close> appends the decimal form of \<open>x\<close>, with a sign when negative
  and zero-padded to \<open>width\<close> digits. The model returns the bytes appended.
\<close>

definition appendInt :: "int \<Rightarrow> nat \<Rightarrow> string" where
  "appendInt x width =
     (let ds = digits_of (nat \<bar>x\<bar>)
      in (if x < 0 then ''-'' else [])
         @ replicate (width - length ds) CHR ''0'' @ ds)"

text \<open>
  \<open>Month.String\<close> and \<open>Weekday.String\<close>: the name, or a \<open>%!Month(n)\<close> form outside the
  range.
\<close>

definition month_String :: "nat \<Rightarrow> string" where
  "month_String m =
     (if 1 \<le> m \<and> m \<le> 12 then longMonthNames ! (m - 1)
      else ''%!Month('' @ digits_of m @ '')'')"

definition weekday_String :: "nat \<Rightarrow> string" where
  "weekday_String d =
     (if d \<le> 6 then longDayNames ! d
      else ''%!Weekday('' @ digits_of d @ '')'')"

subsection \<open>Layout elements\<close>

text \<open>
  The \<open>std...\<close> constants of \<open>format.go\<close>. A fractional-second element carries the
  number of digits and the separator byte.
\<close>

datatype std =
    stdLongMonth | stdMonth | stdNumMonth | stdZeroMonth
  | stdLongWeekDay | stdWeekDay
  | stdDay | stdUnderDay | stdZeroDay | stdUnderYearDay | stdZeroYearDay
  | stdHour | stdHour12 | stdZeroHour12
  | stdMinute | stdZeroMinute | stdSecond | stdZeroSecond
  | stdLongYear | stdYear
  | stdPM | stdpm
  | stdTZ
  | stdISO8601TZ | stdISO8601SecondsTZ | stdISO8601ShortTZ
  | stdISO8601ColonTZ | stdISO8601ColonSecondsTZ
  | stdNumTZ | stdNumSecondsTz | stdNumShortTZ | stdNumColonTZ | stdNumColonSecondsTZ
  | stdFracSecond0 nat char
  | stdFracSecond9 nat char

text \<open>\<open>std0x\<close>: the elements written \<open>01\<close> to \<open>06\<close>.\<close>

definition std0x :: "std list" where
  "std0x = [stdZeroMonth, stdZeroDay, stdZeroHour12, stdZeroMinute, stdZeroSecond, stdYear]"

definition startsWithLowerCase :: "string \<Rightarrow> bool" where
  "startsWithLowerCase str =
     (case str of [] \<Rightarrow> False | c # _ \<Rightarrow> byte CHR ''a'' \<le> byte c \<and> byte c \<le> byte CHR ''z'')"

definition isDigit :: "string \<Rightarrow> nat \<Rightarrow> bool" where
  "isDigit s i =
     (if length s \<le> i then False
      else byte CHR ''0'' \<le> byte (s ! i) \<and> byte (s ! i) \<le> byte CHR ''9'')"

text \<open>
  One iteration of the loop of \<open>nextStdChunk\<close>: the \<open>switch\<close> on the first byte of the
  rest \<open>l = layout[i:]\<close> of the layout. The result is \<open>None\<close> when no element starts
  here, and otherwise the bytes of \<open>l\<close> that still belong to the literal prefix (only
  \<open>_2006\<close> has one), the element, and the number of bytes of \<open>l\<close> consumed.
\<close>

definition std_J :: "string \<Rightarrow> (string \<times> std \<times> nat) option" where
  "std_J l =
     (if HasPrefix l ''Jan'' then
        (if HasPrefix l ''January'' then Some ([], stdLongMonth, 7)
         else if \<not> startsWithLowerCase (drop 3 l) then Some ([], stdMonth, 3)
         else None)
      else None)"

definition std_M :: "string \<Rightarrow> (string \<times> std \<times> nat) option" where
  "std_M l =
     (if 3 \<le> length l then
        (if take 3 l = ''Mon'' \<and> HasPrefix l ''Monday'' then Some ([], stdLongWeekDay, 6)
         else if take 3 l = ''Mon'' \<and> \<not> startsWithLowerCase (drop 3 l)
           then Some ([], stdWeekDay, 3)
         else if take 3 l = ''MST'' then Some ([], stdTZ, 3)
         else None)
      else None)"

definition std_0 :: "string \<Rightarrow> (string \<times> std \<times> nat) option" where
  "std_0 l =
     (if 2 \<le> length l \<and> byte CHR ''1'' \<le> byte (l ! 1) \<and> byte (l ! 1) \<le> byte CHR ''6''
        then Some ([], std0x ! (byte (l ! 1) - byte CHR ''1''), 2)
      else if 3 \<le> length l \<and> l ! 1 = CHR ''0'' \<and> l ! 2 = CHR ''2''
        then Some ([], stdZeroYearDay, 3)
      else None)"

definition std_1 :: "string \<Rightarrow> (string \<times> std \<times> nat) option" where
  "std_1 l =
     (if 2 \<le> length l \<and> l ! 1 = CHR ''5'' then Some ([], stdHour, 2)
      else Some ([], stdNumMonth, 1))"

definition std_2 :: "string \<Rightarrow> (string \<times> std \<times> nat) option" where
  "std_2 l =
     (if HasPrefix l ''2006'' then Some ([], stdLongYear, 4)
      else Some ([], stdDay, 1))"

definition std_underscore :: "string \<Rightarrow> (string \<times> std \<times> nat) option" where
  "std_underscore l =
     (if 2 \<le> length l \<and> l ! 1 = CHR ''2'' then
        (if HasPrefix (drop 1 l) ''2006'' then Some (''_'', stdLongYear, 5)
         else Some ([], stdUnderDay, 2))
      else if 3 \<le> length l \<and> l ! 1 = CHR ''_'' \<and> l ! 2 = CHR ''2''
        then Some ([], stdUnderYearDay, 3)
      else None)"

definition std_minus :: "string \<Rightarrow> (string \<times> std \<times> nat) option" where
  "std_minus l =
     (if HasPrefix l ''-070000'' then Some ([], stdNumSecondsTz, 7)
      else if HasPrefix l ''-07:00:00'' then Some ([], stdNumColonSecondsTZ, 9)
      else if HasPrefix l ''-0700'' then Some ([], stdNumTZ, 5)
      else if HasPrefix l ''-07:00'' then Some ([], stdNumColonTZ, 6)
      else if HasPrefix l ''-07'' then Some ([], stdNumShortTZ, 3)
      else None)"

definition std_Z :: "string \<Rightarrow> (string \<times> std \<times> nat) option" where
  "std_Z l =
     (if HasPrefix l ''Z070000'' then Some ([], stdISO8601SecondsTZ, 7)
      else if HasPrefix l ''Z07:00:00'' then Some ([], stdISO8601ColonSecondsTZ, 9)
      else if HasPrefix l ''Z0700'' then Some ([], stdISO8601TZ, 5)
      else if HasPrefix l ''Z07:00'' then Some ([], stdISO8601ColonTZ, 6)
      else if HasPrefix l ''Z07'' then Some ([], stdISO8601ShortTZ, 3)
      else None)"

text \<open>
  \<open>.000\<close>, \<open>,000\<close>, \<open>.999\<close>, \<open>,999\<close>: a separator and a run of one repeated digit that is
  not followed by another digit. \<open>stdFractionalSecond\<close> keeps the low 12 bits of the
  run's length.
\<close>

definition std_frac :: "string \<Rightarrow> (string \<times> std \<times> nat) option" where
  "std_frac l =
     (if 1 < length l \<and> (l ! 1 = CHR ''0'' \<or> l ! 1 = CHR ''9'') then
        (let ch = l ! 1;
             j = 1 + length (takeWhile (\<lambda>c. c = ch) (drop 1 l))
         in if \<not> isDigit l j then
              Some ([], (if ch = CHR ''9'' then stdFracSecond9 else stdFracSecond0)
                          ((j - 1) mod 4096) (l ! 0), j)
            else None)
      else None)"

definition std_at :: "string \<Rightarrow> (string \<times> std \<times> nat) option" where
  "std_at l =
     (case l of
        [] \<Rightarrow> None
      | c # _ \<Rightarrow>
          if c = CHR ''J'' then std_J l
          else if c = CHR ''M'' then std_M l
          else if c = CHR ''0'' then std_0 l
          else if c = CHR ''1'' then std_1 l
          else if c = CHR ''2'' then std_2 l
          else if c = CHR ''_'' then std_underscore l
          else if c = CHR ''3'' then Some ([], stdHour12, 1)
          else if c = CHR ''4'' then Some ([], stdMinute, 1)
          else if c = CHR ''5'' then Some ([], stdSecond, 1)
          else if c = CHR ''P'' then
            (if 2 \<le> length l \<and> l ! 1 = CHR ''M'' then Some ([], stdPM, 2) else None)
          else if c = CHR ''p'' then
            (if 2 \<le> length l \<and> l ! 1 = CHR ''m'' then Some ([], stdpm, 2) else None)
          else if c = CHR ''-'' then std_minus l
          else if c = CHR ''Z'' then std_Z l
          else if c = CHR ''.'' \<or> c = CHR '','' then std_frac l
          else None)"

text \<open>
  \<open>nextStdChunk(layout)\<close>: the literal prefix before the first element, that element
  (\<open>None\<close> for Go's \<open>0\<close>, when the layout holds no further element) and the rest of
  the layout after it. \<open>scan_std pre l\<close> is the loop at position \<open>i\<close>, with
  \<open>pre = layout[0:i]\<close> and \<open>l = layout[i:]\<close>.
\<close>

fun scan_std :: "string \<Rightarrow> string \<Rightarrow> string \<times> std option \<times> string" where
  "scan_std pre [] = (pre, None, [])"
| "scan_std pre (c # cs) =
     (case std_at (c # cs) of
        Some (lit, s, k) \<Rightarrow> (pre @ lit, Some s, drop k (c # cs))
      | None \<Rightarrow> scan_std (pre @ [c]) cs)"

definition nextStdChunk :: "string \<Rightarrow> string \<times> std option \<times> string" where
  "nextStdChunk layout = scan_std [] layout"

lemma std_at_consumes: "std_at l = Some (lit, s, k) \<Longrightarrow> 1 \<le> k"
  by (auto simp: std_at_def std_J_def std_M_def std_0_def std_1_def std_2_def
        std_underscore_def std_minus_def std_Z_def std_frac_def Let_def
      split: list.splits if_splits)

lemma scan_std_shorter:
  "scan_std pre l = (p, Some s, suffix) \<Longrightarrow> length suffix < length l"
proof (induction l arbitrary: pre)
  case Nil
  then show ?case by simp
next
  case (Cons c cs)
  show ?case
  proof (cases "std_at (c # cs)")
    case None
    with Cons.prems have "scan_std (pre @ [c]) cs = (p, Some s, suffix)" by simp
    from Cons.IH [OF this] show ?thesis by simp
  next
    case (Some r)
    obtain lit s' k where r: "r = (lit, s', k)" by (cases r)
    from Some r have "1 \<le> k" by (auto dest: std_at_consumes)
    moreover from Cons.prems Some r have "suffix = drop k (c # cs)" by simp
    ultimately show ?thesis by (cases k) auto
  qed
qed

subsection \<open>Formatting\<close>

text \<open>Go's integer division and remainder truncate towards zero.\<close>

definition quo :: "int \<Rightarrow> int \<Rightarrow> int" where
  "quo a b = sgn a * sgn b * (\<bar>a\<bar> div \<bar>b\<bar>)"

definition rem :: "int \<Rightarrow> int \<Rightarrow> int" where
  "rem a b = a - b * quo a b"

text \<open>
  \<open>appendNano(b, nanosec, std)\<close>: the fractional second. \<open>trim\<close> is set for the \<open>9\<close>
  forms, \<open>n\<close> is the number of digits and \<open>dot\<close> the separator. The model returns the
  bytes appended to \<open>b\<close>; the trimming loop of the source stops at the separator it has
  just appended, so it never reaches the earlier bytes of \<open>b\<close>.
\<close>

definition appendNano :: "nat \<Rightarrow> bool \<Rightarrow> nat \<Rightarrow> char \<Rightarrow> string" where
  "appendNano nanosec trim n dot =
     (if trim \<and> (n = 0 \<or> nanosec = 0) then []
      else
        let a = dot # appendInt (int nanosec) 9;
            a = (if n < 9 then take (length a - 9 + n) a else a)
        in if trim then
             (let a = rev (dropWhile (\<lambda>c. c = CHR ''0'') (rev a))
              in if a \<noteq> [] \<and> last a = dot then butlast a else a)
           else a)"

definition is_ISO8601 :: "std \<Rightarrow> bool" where
  "is_ISO8601 s \<longleftrightarrow>
     s = stdISO8601TZ \<or> s = stdISO8601ColonTZ \<or> s = stdISO8601SecondsTZ
     \<or> s = stdISO8601ShortTZ \<or> s = stdISO8601ColonSecondsTZ"

text \<open>The numeric time zone forms (\<open>-0700\<close>, \<open>Z07:00\<close> and the like).\<close>

definition format_zone :: "std \<Rightarrow> int \<Rightarrow> string" where
  "format_zone s offset =
     (if offset = 0 \<and> is_ISO8601 s then ''Z''
      else
        let zone = quo offset 60;
            neg = zone < 0;
            absoffset = (if neg then - offset else offset);
            zone = (if neg then - zone else zone)
        in (if neg then ''-'' else ''+'')
           @ appendInt (quo zone 60) 2
           @ (if s = stdISO8601ColonTZ \<or> s = stdNumColonTZ
                 \<or> s = stdISO8601ColonSecondsTZ \<or> s = stdNumColonSecondsTZ
              then '':'' else [])
           @ (if s \<noteq> stdNumShortTZ \<and> s \<noteq> stdISO8601ShortTZ
              then appendInt (rem zone 60) 2 else [])
           @ (if s = stdISO8601SecondsTZ \<or> s = stdNumSecondsTz
                 \<or> s = stdNumColonSecondsTZ \<or> s = stdISO8601ColonSecondsTZ
              then (if s = stdNumColonSecondsTZ \<or> s = stdISO8601ColonSecondsTZ
                    then '':'' else [])
                   @ appendInt (rem absoffset 60) 2
              else []))"

text \<open>
  The \<open>switch std & stdMask\<close> of \<open>Time.appendFormat\<close>: the bytes one layout element
  stands for at time \<open>t\<close>.
\<close>

fun format_std :: "time \<Rightarrow> std \<Rightarrow> string" where
  "format_std t stdYear = appendInt (rem \<bar>t_year t\<bar> 100) 2"
| "format_std t stdLongYear = appendInt (t_year t) 4"
| "format_std t stdMonth = take 3 (month_String (t_month t))"
| "format_std t stdLongMonth = month_String (t_month t)"
| "format_std t stdNumMonth = appendInt (int (t_month t)) 0"
| "format_std t stdZeroMonth = appendInt (int (t_month t)) 2"
| "format_std t stdWeekDay = take 3 (weekday_String (weekday t))"
| "format_std t stdLongWeekDay = weekday_String (weekday t)"
| "format_std t stdDay = appendInt (int (t_day t)) 0"
| "format_std t stdUnderDay =
     (if t_day t < 10 then '' '' else []) @ appendInt (int (t_day t)) 0"
| "format_std t stdZeroDay = appendInt (int (t_day t)) 2"
| "format_std t stdUnderYearDay =
     (if year_day t < 100 then '' '' @ (if year_day t < 10 then '' '' else []) else [])
     @ appendInt (year_day t) 0"
| "format_std t stdZeroYearDay = appendInt (year_day t) 3"
| "format_std t stdHour = appendInt (int (t_hour t)) 2"
| "format_std t stdHour12 =
     appendInt (int (if t_hour t mod 12 = 0 then 12 else t_hour t mod 12)) 0"
| "format_std t stdZeroHour12 =
     appendInt (int (if t_hour t mod 12 = 0 then 12 else t_hour t mod 12)) 2"
| "format_std t stdMinute = appendInt (int (t_minute t)) 0"
| "format_std t stdZeroMinute = appendInt (int (t_minute t)) 2"
| "format_std t stdSecond = appendInt (int (t_second t)) 0"
| "format_std t stdZeroSecond = appendInt (int (t_second t)) 2"
| "format_std t stdPM = (if t_hour t \<ge> 12 then ''PM'' else ''AM'')"
| "format_std t stdpm = (if t_hour t \<ge> 12 then ''pm'' else ''am'')"
| "format_std t stdTZ =
     (if zone_name t \<noteq> [] then zone_name t
      else
        let zone = quo (zone_offset t) 60;
            neg = zone < 0;
            zone = (if neg then - zone else zone)
        in (if neg then ''-'' else ''+'')
           @ appendInt (quo zone 60) 2 @ appendInt (rem zone 60) 2)"
| "format_std t (stdFracSecond0 n dot) = appendNano (t_nanosecond t) False n dot"
| "format_std t (stdFracSecond9 n dot) = appendNano (t_nanosecond t) True n dot"
| "format_std t s = format_zone s (zone_offset t)"

text \<open>
  \<open>Time.appendFormat(b, layout)\<close>: each iteration takes one element off the layout,
  appends the literal prefix before it and then the element's value; the layout's
  tail without any element is appended as it is.
\<close>

function appendFormat :: "time \<Rightarrow> string \<Rightarrow> string \<Rightarrow> string" where
  "appendFormat t b [] = b"
| "appendFormat t b (c # cs) =
     (case nextStdChunk (c # cs) of
        (prefix, None, suffix) \<Rightarrow> b @ prefix
      | (prefix, Some s, suffix) \<Rightarrow> appendFormat t (b @ prefix @ format_std t s) suffix)"
  by pat_completeness auto
termination
  apply (relation "measure (\<lambda>(t, b, layout). length layout)")
   apply simp
  apply (simp only: nextStdChunk_def)
  apply (drule sym)
  apply (auto simp del: scan_std.simps dest!: scan_std_shorter)
  done

definition Format :: "time \<Rightarrow> string \<Rightarrow> string" where
  "Format t layout = appendFormat t [] layout"

section \<open>The standard library's byte-slice functions\<close>

subsection \<open>UTF-8 decoding\<close>

text \<open>
  \<open>bytes.TrimSpace\<close> trims Unicode white space, so it decodes UTF-8 once it meets a byte
  outside ASCII. Runes are natural numbers. The definitions follow \<open>unicode/utf8\<close>.
\<close>

definition RuneError :: nat where
  "RuneError = 0xFFFD"

definition RuneSelf :: nat where
  "RuneSelf = 0x80"

text \<open>
  The table \<open>first\<close>: information about the first byte of an encoding. \<open>0xF0\<close> is
  ASCII, \<open>0xF1\<close> an invalid first byte; otherwise the low three bits are the length of
  the encoding and the high four bits an index into \<open>acceptRanges\<close>.
\<close>

definition utf8_first :: "nat \<Rightarrow> nat" where
  "utf8_first b =
     (if b < 0x80 then 0xF0
      else if b < 0xC2 then 0xF1
      else if b < 0xE0 then 0x02
      else if b = 0xE0 then 0x13
      else if b < 0xED then 0x03
      else if b = 0xED then 0x23
      else if b < 0xF0 then 0x03
      else if b = 0xF0 then 0x34
      else if b < 0xF4 then 0x04
      else if b = 0xF4 then 0x44
      else 0xF1)"

definition acceptRanges :: "nat \<Rightarrow> nat \<times> nat" where
  "acceptRanges k = [(0x80, 0xBF), (0xA0, 0xBF), (0x80, 0x9F), (0x90, 0xBF), (0x80, 0x8F)] ! k"

text \<open>\<open>utf8.DecodeRune(p)\<close>: the first rune of \<open>p\<close> and its width in bytes.\<close>

definition DecodeRune :: "string \<Rightarrow> nat \<times> nat" where
  "DecodeRune p =
     (case p of
        [] \<Rightarrow> (RuneError, 0)
      | p0 # _ \<Rightarrow>
          let n = length p; x = utf8_first (byte p0)
          in if x \<ge> 0xF0 then ((if x = 0xF0 then byte p0 else RuneError), 1)
             else
               let sz = x mod 8; lo = fst (acceptRanges (x div 16));
                   hi = snd (acceptRanges (x div 16))
               in if n < sz then (RuneError, 1)
                  else
                    let b1 = byte (p ! 1)
                    in if b1 < lo \<or> hi < b1 then (RuneError, 1)
                       else if sz \<le> 2 then (byte p0 mod 32 * 64 + b1 mod 64, 2)
                       else
                         let b2 = byte (p ! 2)
                         in if b2 < 0x80 \<or> 0xBF < b2 then (RuneError, 1)
                            else if sz \<le> 3
                              then (byte p0 mod 16 * 4096 + b1 mod 64 * 64 + b2 mod 64, 3)
                            else
                              let b3 = byte (p ! 3)
                              in if b3 < 0x80 \<or> 0xBF < b3 then (RuneError, 1)
                                 else (byte p0 mod 8 * 262144 + b1 mod 64 * 4096
                                       + b2 mod 64 * 64 + b3 mod 64, 4))"

lemma DecodeRune_width: "p \<noteq> [] \<Longrightarrow> 0 < snd (DecodeRune p)"
  by (cases p) (simp_all add: DecodeRune_def Let_def)

text \<open>\<open>utf8.RuneStart(b)\<close>: \<open>b\<close> is not a continuation byte.\<close>

definition RuneStart :: "char \<Rightarrow> bool" where
  "RuneStart b \<longleftrightarrow> \<not> (0x80 \<le> byte b \<and> byte b < 0xC0)"

text \<open>
  The backwards search of \<open>DecodeLastRune\<close> for the start of the last rune:
  \<open>for start--; start >= lim; start-- { if RuneStart(p[start]) { break } }\<close>, entered
  after the decrement.
\<close>

function find_start :: "string \<Rightarrow> int \<Rightarrow> int \<Rightarrow> int" where
  "find_start p start lim =
     (if start \<ge> lim then
        (if RuneStart (p ! nat start) then start else find_start p (start - 1) lim)
      else start)"
  by pat_completeness auto
termination
  by (relation "measure (\<lambda>(p, start, lim). nat (start - lim + 1))") auto

declare find_start.simps [simp del]

text \<open>\<open>utf8.DecodeLastRune(p)\<close>: the last rune of \<open>p\<close> and its width in bytes.\<close>

definition DecodeLastRune :: "string \<Rightarrow> nat \<times> nat" where
  "DecodeLastRune p =
     (if p = [] then (RuneError, 0)
      else
        let end = length p; r = byte (p ! (end - 1))
        in if r < RuneSelf then (r, 1)
           else
             let lim = max 0 (int end - 4);
                 start = find_start p (int end - 2) lim;
                 start = (if start < 0 then 0 else start);
                 d = DecodeRune (drop (nat start) p)
             in if nat start + snd d \<noteq> end then (RuneError, 1) else d)"

lemma find_start_le: "find_start p start lim \<le> start"
proof (induction p start lim rule: find_start.induct)
  case (1 p start lim)
  show ?case
  proof (cases "start \<ge> lim \<and> \<not> RuneStart (p ! nat start)")
    case True
    with "1.IH" have "find_start p (start - 1) lim \<le> start - 1" by simp
    with True show ?thesis by (subst find_start.simps) simp
  next
    case False
    then show ?thesis by (subst find_start.simps) auto
  qed
qed

lemma DecodeLastRune_width: "p \<noteq> [] \<Longrightarrow> 0 < snd (DecodeLastRune p)"
proof -
  assume ne: "p \<noteq> []"
  define k where
    "k = nat (if find_start p (int (length p) - 2) (max 0 (int (length p) - 4)) < 0 then 0
              else find_start p (int (length p) - 2) (max 0 (int (length p) - 4)))"
  have "find_start p (int (length p) - 2) (max 0 (int (length p) - 4)) \<le> int (length p) - 2"
    by (rule find_start_le)
  with ne have "k < length p" by (cases p) (auto simp: k_def)
  then have "0 < snd (DecodeRune (drop k p))" by (simp add: DecodeRune_width)
  with ne show ?thesis
    by (auto simp: DecodeLastRune_def Let_def k_def)
qed

text \<open>\<open>unicode.IsSpace\<close>: the Latin-1 spaces and the \<open>White_Space\<close> table beyond them.\<close>

definition IsSpace :: "nat \<Rightarrow> bool" where
  "IsSpace r \<longleftrightarrow>
     (if r \<le> 0xFF then r \<in> {0x09, 0x0A, 0x0B, 0x0C, 0x0D, 0x20, 0x85, 0xA0}
      else r = 0x1680 \<or> (0x2000 \<le> r \<and> r \<le> 0x200A) \<or> r = 0x2028 \<or> r = 0x2029
           \<or> r = 0x202F \<or> r = 0x205F \<or> r = 0x3000)"

subsection \<open>Trimming\<close>

text \<open>The rune at \<open>s[start:]\<close> and the rune ending at \<open>s[:i]\<close>, with the ASCII shortcut.\<close>

definition rune_at :: "string \<Rightarrow> nat \<Rightarrow> nat \<times> nat" where
  "rune_at s start =
     (if byte (s ! start) \<ge> RuneSelf then DecodeRune (drop start s)
      else (byte (s ! start), 1))"

definition rune_before :: "string \<Rightarrow> nat \<Rightarrow> nat \<times> nat" where
  "rune_before s i =
     (if byte (s ! (i - 1)) \<ge> RuneSelf then DecodeLastRune (take i s)
      else (byte (s ! (i - 1)), 1))"

lemma rune_at_width: "start < length s \<Longrightarrow> 0 < snd (rune_at s start)"
  by (simp add: rune_at_def DecodeRune_width)

lemma rune_before_width: "0 < i \<Longrightarrow> s \<noteq> [] \<Longrightarrow> 0 < snd (rune_before s i)"
  by (simp add: rune_before_def DecodeLastRune_width)

text \<open>
  \<open>indexFunc(s, f, truth)\<close>: the index of the first rune \<open>r\<close> with \<open>f(r) == truth\<close>, from
  position \<open>start\<close> on; \<open>None\<close> for Go's \<open>-1\<close>.
\<close>

function indexFunc :: "string \<Rightarrow> (nat \<Rightarrow> bool) \<Rightarrow> bool \<Rightarrow> nat \<Rightarrow> nat option" where
  "indexFunc s f truth start =
     (if start < length s then
        (if f (fst (rune_at s start)) = truth then Some start
         else indexFunc s f truth (start + snd (rune_at s start)))
      else None)"
  by pat_completeness auto
termination
proof (relation "measure (\<lambda>(s, f, truth, start). length s - start)")
  show "wf (measure (\<lambda>(s, f, truth, start). length s - start))" by simp
next
  fix s :: string and f :: "nat \<Rightarrow> bool" and truth :: bool and start :: nat
  assume "start < length s"
  moreover from this have "0 < snd (rune_at s start)" by (rule rune_at_width)
  ultimately show "((s, f, truth, start + snd (rune_at s start)), (s, f, truth, start))
      \<in> measure (\<lambda>(s, f, truth, start). length s - start)"
    by simp
qed

declare indexFunc.simps [simp del]

text \<open>
  \<open>lastIndexFunc(s, f, truth)\<close>: the index of the last rune \<open>r\<close> with \<open>f(r) == truth\<close>,
  searching backwards from position \<open>i\<close>.
\<close>

function lastIndexFunc :: "string \<Rightarrow> (nat \<Rightarrow> bool) \<Rightarrow> bool \<Rightarrow> nat \<Rightarrow> nat option" where
  "lastIndexFunc s f truth i =
     (if 0 < i \<and> s \<noteq> [] then
        (if f (fst (rune_before s i)) = truth then Some (i - snd (rune_before s i))
         else lastIndexFunc s f truth (i - snd (rune_before s i)))
      else None)"
  by pat_completeness auto
termination
proof (relation "measure (\<lambda>(s, f, truth, i). i)")
  show "wf (measure (\<lambda>(s, f, truth, i). i))" by simp
next
  fix s :: string and f :: "nat \<Rightarrow> bool" and truth :: bool and i :: nat
  assume a: "0 < i \<and> s \<noteq> []"
  then have "0 < snd (rune_before s i)" by (simp add: rune_before_width)
  with a show "((s, f, truth, i - snd (rune_before s i)), (s, f, truth, i))
      \<in> measure (\<lambda>(s, f, truth, i). i)"
    by simp
qed

declare lastIndexFunc.simps [simp del]

definition TrimLeftFunc :: "string \<Rightarrow> (nat \<Rightarrow> bool) \<Rightarrow> string" where
  "TrimLeftFunc s f = (case indexFunc s f False 0 of None \<Rightarrow> [] | Some i \<Rightarrow> drop i s)"

definition TrimRightFunc :: "string \<Rightarrow> (nat \<Rightarrow> bool) \<Rightarrow> string" where
  "TrimRightFunc s f =
     (case lastIndexFunc s f False (length s) of
        None \<Rightarrow> []
      | Some i \<Rightarrow>
          if byte (s ! i) \<ge> RuneSelf then take (i + snd (DecodeRune (drop i s))) s
          else take (i + 1) s)"

definition TrimFunc :: "string \<Rightarrow> (nat \<Rightarrow> bool) \<Rightarrow> string" where
  "TrimFunc s f = TrimRightFunc (TrimLeftFunc s f) f"

definition asciiSpace :: "char \<Rightarrow> bool" where
  "asciiSpace c \<longleftrightarrow> byte c \<in> {0x09, 0x0A, 0x0B, 0x0C, 0x0D, 0x20}"

text \<open>
  \<open>bytes.TrimSpace(s)\<close>. The first loop drops ASCII space from the front, the second
  from the back; either falls back to \<open>TrimFunc(..., unicode.IsSpace)\<close> on what is left
  as soon as it meets a byte outside ASCII. \<open>TrimSpace_stop\<close> is the second loop on
  \<open>s[start:stop]\<close>.
\<close>

function TrimSpace_stop :: "string \<Rightarrow> string" where
  "TrimSpace_stop s =
     (if s = [] then []
      else if byte (last s) \<ge> RuneSelf then TrimFunc s IsSpace
      else if asciiSpace (last s) then TrimSpace_stop (butlast s)
      else s)"
  by pat_completeness auto
termination
  by (relation "measure length") auto

declare TrimSpace_stop.simps [simp del]

fun TrimSpace :: "string \<Rightarrow> string" where
  "TrimSpace [] = []"
| "TrimSpace (c # cs) =
     (if byte c \<ge> RuneSelf then TrimFunc (c # cs) IsSpace
      else if asciiSpace c then TrimSpace cs
      else TrimSpace_stop (c # cs))"

subsection \<open>Searching and replacing\<close>

text \<open>\<open>strings.Index(s, substr)\<close>: the index of the first instance, \<open>None\<close> for \<open>-1\<close>.\<close>

fun Index :: "string \<Rightarrow> string \<Rightarrow> nat option" where
  "Index [] substr = (if substr = [] then Some 0 else None)"
| "Index (c # cs) substr =
     (if HasPrefix (c # cs) substr then Some 0 else map_option Suc (Index cs substr))"

text \<open>
  \<open>bytes.ReplaceAll(s, old, new)\<close> replaces the non-overlapping instances of \<open>old\<close> from
  left to right. With an empty \<open>old\<close> it inserts \<open>new\<close> at the beginning and after every
  rune (\<open>insert_after_runes\<close>).
\<close>

function insert_after_runes :: "string \<Rightarrow> string \<Rightarrow> string" where
  "insert_after_runes s new =
     (if s = [] then []
      else take (snd (DecodeRune s)) s @ new
           @ insert_after_runes (drop (snd (DecodeRune s)) s) new)"
  by pat_completeness auto
termination
proof (relation "measure (\<lambda>(s, new). length s)")
  show "wf (measure (\<lambda>(s, new). length s))" by simp
next
  fix s new :: string
  assume "s \<noteq> []"
  moreover from this have "0 < snd (DecodeRune s)" by (rule DecodeRune_width)
  ultimately show "((drop (snd (DecodeRune s)) s, new), (s, new))
      \<in> measure (\<lambda>(s, new). length s)"
    by (cases s) auto
qed

declare insert_after_runes.simps [simp del]

function replace_from :: "string \<Rightarrow> string \<Rightarrow> string \<Rightarrow> string" where
  "replace_from [] old new = []"
| "replace_from (c # cs) old new =
     (if old \<noteq> [] \<and> HasPrefix (c # cs) old
        then new @ replace_from (drop (length old) (c # cs)) old new
      else c # replace_from cs old new)"
  by pat_completeness auto
termination
  by (relation "measure (\<lambda>(s, old, new). length s)") (auto simp: HasPrefix_def)

definition ReplaceAll :: "string \<Rightarrow> string \<Rightarrow> string \<Rightarrow> string" where
  "ReplaceAll s old new =
     (if old = [] then new @ insert_after_runes s new else replace_from s old new)"

section \<open>The program\<close>

subsection \<open>Flags, environment and results\<close>

text \<open>
  Every \<open>return fmt.Errorf(...)\<close> of \<open>main.go\<close> is one constructor; the wrapping of an
  inner error's text into the outer message is not modelled.
\<close>

datatype error =
    ErrFormatRequired
  | ErrCreateTemp
  | ErrWriteTimestamp
  | ErrWriteTitle
  | ErrOpenEditor
  | ErrReadTemp
  | ErrSnippetEmpty
  | ErrResolveSnipDir
  | ErrTimestampZero
  | ErrEnsureDir
  | ErrReadExisting
  | ErrWriteFile
  | ErrEvalSymlinks
  | ErrNoZoneinfoMarker
  | ErrLoadInferred

text \<open>The two \<open>log.Printf\<close> calls of \<open>run\<close>.\<close>

datatype log_entry =
    LogInferTimezoneFailed error
  | LogRemoveTempFailed

text \<open>What \<open>os.ReadFile\<close> gives for the day file.\<close>

datatype read_result = NotExist | ReadFailed | Contents string

text \<open>
  A path is the list of the elements handed to \<open>filepath.Join\<close>; the cleaning that
  \<open>Join\<close> does is not modelled.
\<close>

type_synonym path = "string list"

text \<open>
  Everything \<open>run\<close> reads from outside: the four flags, the clock, the environment
  variables, and the outcome of each call into the operating system. \<open>run_editor\<close>
  takes the editor's name and the temporary file's bytes and gives the bytes the
  editor left there, or \<open>None\<close> when \<open>cmd.Run\<close> fails.
\<close>

record env =
  message :: string
  edit :: bool
  timeFormat :: string
  includeHeader :: bool
  now :: time
  UserHomeDir :: "string option"
  TZ :: string
  EDITOR :: string
  LoadLocation :: "string \<Rightarrow> bool"
  EvalSymlinks_localtime :: "string option"
  CreateTemp_ok :: bool
  WriteString_timestamp_ok :: bool
  WriteString_title_ok :: bool
  run_editor :: "string \<Rightarrow> string \<Rightarrow> string option"
  ReadFile_temp_ok :: bool
  MkdirAll_ok :: bool
  ReadFile :: "path \<Rightarrow> read_result"
  WriteFile_ok :: bool
  Remove_temp_ok :: bool

text \<open>
  What \<open>run\<close> leaves behind: the error it returns (\<open>None\<close> for \<open>nil\<close>), the file written
  by \<open>renameio.WriteFile\<close> when that call was reached and succeeded (the write is
  atomic: a failed one leaves the file as it was), and the log lines in order.
\<close>

record outcome =
  err :: "error option"
  written :: "(path \<times> string) option"
  logged :: "log_entry list"

subsection \<open>\<open>baseDir\<close>, \<open>snippetPath\<close>, \<open>inferLocalTimezone\<close>\<close>

definition baseDir :: "env \<Rightarrow> error + path" where
  "baseDir e =
     (case UserHomeDir e of
        None \<Rightarrow> Inl ErrResolveSnipDir
      | Some home \<Rightarrow> Inr [home, ''.snip''])"

definition snippetPath :: "env \<Rightarrow> time \<Rightarrow> error + path" where
  "snippetPath e t =
     (if IsZero t then Inl ErrTimestampZero
      else
        case baseDir e of
          Inl er \<Rightarrow> Inl er
        | Inr base \<Rightarrow> Inr (base @ [Format t ''2006-01-02'' @ ''.txt'']))"

definition inferLocalTimezone :: "env \<Rightarrow> error + string" where
  "inferLocalTimezone e =
     (if TZ e \<noteq> [] \<and> LoadLocation e (TZ e) then Inr (TZ e)
      else
        case EvalSymlinks_localtime e of
          None \<Rightarrow> Inl ErrEvalSymlinks
        | Some realPath \<Rightarrow>
            (case Index realPath ''zoneinfo/'' of
               None \<Rightarrow> Inl ErrNoZoneinfoMarker
             | Some idx \<Rightarrow>
                 let inferred = drop (idx + length ''zoneinfo/'') realPath
                 in if LoadLocation e inferred then Inr inferred
                    else Inl ErrLoadInferred))"

subsection \<open>\<open>run\<close>: the snippet line\<close>

text \<open>
  Lines 146 to 153: the bytes read back from the temporary file are trimmed; an empty
  result is an error; newlines become spaces and one newline is appended.
\<close>

definition snippet_line :: "string \<Rightarrow> error + string" where
  "snippet_line raw =
     (let snippet = TrimSpace raw
      in if length snippet = 0 then Inl ErrSnippetEmpty
         else
           let snippet = ReplaceAll snippet [newline] '' '';
               snippet = snippet @ [newline]
           in Inr snippet)"

subsection \<open>\<open>run\<close>: assembling the file\<close>

text \<open>
  Lines 206 to 212: the timezone name, or the placeholder when it cannot be inferred,
  is concatenated into the layout of the header, and the time is formatted with it.
\<close>

definition timezone_or_placeholder :: "error + string \<Rightarrow> string" where
  "timezone_or_placeholder r =
     (case r of Inl er \<Rightarrow> ''<unknown timezone>'' | Inr timezone \<Rightarrow> timezone)"

definition header :: "time \<Rightarrow> string \<Rightarrow> string" where
  "header t timezone =
     (let headerFormat = ''--- Monday Jan _2 2006 in '' @ timezone @ '' ---''
      in Format t headerFormat @ [newline])"

text \<open>
  Lines 194 to 229: the buffer \<open>assembled\<close> after each of the four writes. \<open>tz\<close> is the
  result of \<open>inferLocalTimezone\<close>, which the source calls only inside the first branch.
\<close>

definition assemble :: "bool \<Rightarrow> string \<Rightarrow> time \<Rightarrow> error + string \<Rightarrow> string \<Rightarrow> string" where
  "assemble include_header existing t tz snippet =
     (let assembled = [];
          assembled =
            (if include_header \<and> \<not> HasPrefix existing ''---''
             then assembled @ header t (timezone_or_placeholder tz)
             else assembled);
          assembled = assembled @ existing;
          assembled =
            (if length existing \<noteq> 0 \<and> existing ! (length existing - 1) \<noteq> newline
             then assembled @ [newline]
             else assembled);
          assembled = assembled @ snippet
      in assembled)"

text \<open>The log line of line 208, written only when the header branch is taken.\<close>

definition assemble_log :: "bool \<Rightarrow> string \<Rightarrow> error + string \<Rightarrow> log_entry list" where
  "assemble_log include_header existing tz =
     (if include_header \<and> \<not> HasPrefix existing ''---''
      then (case tz of Inl er \<Rightarrow> [LogInferTimezoneFailed er] | Inr timezone \<Rightarrow> [])
      else [])"

subsection \<open>\<open>run\<close>\<close>

definition failed :: "error \<Rightarrow> outcome" where
  "failed er = \<lparr>err = Some er, written = None, logged = []\<rparr>"

text \<open>
  Lines 142 to 235, after the editor has returned: read the snippet back, build the
  line, resolve the path, read the day file, assemble and write.
\<close>

definition commit :: "env \<Rightarrow> string \<Rightarrow> outcome" where
  "commit e tmp =
     (if \<not> ReadFile_temp_ok e then failed ErrReadTemp
      else
        case snippet_line tmp of
          Inl er \<Rightarrow> failed er
        | Inr snippet \<Rightarrow>
            (case snippetPath e (now e) of
               Inl er \<Rightarrow> failed er
             | Inr path \<Rightarrow>
                 if \<not> MkdirAll_ok e then failed ErrEnsureDir
                 else
                   case ReadFile e path of
                     ReadFailed \<Rightarrow> failed ErrReadExisting
                   | r \<Rightarrow>
                       let existing = (case r of Contents bs \<Rightarrow> bs | _ \<Rightarrow> []);
                           tz = inferLocalTimezone e;
                           assembled = assemble (includeHeader e) existing (now e) tz snippet;
                           lg = assemble_log (includeHeader e) existing tz
                       in if \<not> WriteFile_ok e
                          then \<lparr>err = Some ErrWriteFile, written = None, logged = lg\<rparr>
                          else \<lparr>err = None, written = Some (path, assembled), logged = lg\<rparr>))"

text \<open>
  Lines 116 to 138: the temporary file is filled with the timestamp and the title, and
  handed to the editor when one is to be opened.
\<close>

definition edit_snippet :: "env \<Rightarrow> error + string" where
  "edit_snippet e =
     (let openEditor = (edit e \<or> message e = [])
      in if \<not> WriteString_timestamp_ok e then Inl ErrWriteTimestamp
         else
           let tmp = Format (now e) (timeFormat e) @ '' | ''
           in if message e \<noteq> [] \<and> \<not> WriteString_title_ok e then Inl ErrWriteTitle
              else
                let tmp = (if message e \<noteq> [] then tmp @ message e else tmp)
                in if openEditor then
                     (case run_editor e (if EDITOR e \<noteq> [] then EDITOR e else ''vim'') tmp of
                        None \<Rightarrow> Inl ErrOpenEditor
                      | Some tmp \<Rightarrow> Inr tmp)
                   else Inr tmp)"

text \<open>
  The deferred function of lines 110 to 114 runs on every return after the temporary
  file was created; a failure to remove the file is logged and nothing else.
\<close>

definition deferred_Remove :: "env \<Rightarrow> outcome \<Rightarrow> outcome" where
  "deferred_Remove e out =
     (if Remove_temp_ok e then out
      else out\<lparr>logged := logged out @ [LogRemoveTempFailed]\<rparr>)"

definition run :: "env \<Rightarrow> outcome" where
  "run e =
     (if timeFormat e = [] then failed ErrFormatRequired
      else if \<not> CreateTemp_ok e then failed ErrCreateTemp
      else
        deferred_Remove e
          (case edit_snippet e of
             Inl er \<Rightarrow> failed er
           | Inr tmp \<Rightarrow> commit e tmp))"

text \<open>
  The day file after \<open>run\<close>: what \<open>os.ReadFile\<close> would give for \<open>p\<close> afterwards.
\<close>

definition ReadFile_after :: "env \<Rightarrow> path \<Rightarrow> read_result" where
  "ReadFile_after e p =
     (case written (run e) of
        Some (q, bs) \<Rightarrow> if p = q then Contents bs else ReadFile e p
      | None \<Rightarrow> ReadFile e p)"

section \<open>Notions used in the statements\<close>

text \<open>
  What the fixed part \<open>--- Monday Jan _2 2006\<close> of the header layout stands for at time
  \<open>t\<close>: the marker, the name of the weekday, the first three letters of the month,
  the day of the month padded with a space to two places, and the year (lemma
  \<open>header_fixed_part\<close> below shows that \<open>appendFormat\<close> produces exactly this).
\<close>

definition header_date :: "time \<Rightarrow> string" where
  "header_date t =
     ''--- '' @ weekday_String (weekday t) @ '' '' @ take 3 (month_String (t_month t)) @ '' ''
     @ (if t_day t < 10 then '' '' else []) @ appendInt (int (t_day t)) 0 @ '' ''
     @ appendInt (t_year t) 4"

text \<open>A layout without any element: \<open>nextStdChunk\<close> finds nothing in it.\<close>

definition plain_layout :: "string \<Rightarrow> bool" where
  "plain_layout l \<longleftrightarrow> fst (snd (nextStdChunk l)) = None"

text \<open>
  The moment and the environment of the README's example: 20 November 2024, 09:30:47
  in Dublin, first snippet of the day, written with \<open>snip -m 'at desk'\<close>.
\<close>

definition example_now :: time where
  "example_now =
     \<lparr>t_year = 2024, t_month = 11, t_day = 20, t_hour = 9, t_minute = 30, t_second = 47,
      t_nanosecond = 0, zone_name = ''GMT'', zone_offset = 0\<rparr>"

definition example_env :: env where
  "example_env =
     \<lparr>message = ''at desk'', edit = False, timeFormat = ''15:04'', includeHeader = True,
      now = example_now, UserHomeDir = Some ''/Users/saser'', TZ = ''Europe/Dublin'',
      EDITOR = [], LoadLocation = (\<lambda>name. True), EvalSymlinks_localtime = None,
      CreateTemp_ok = True, WriteString_timestamp_ok = True, WriteString_title_ok = True,
      run_editor = (\<lambda>editor tmp. None), ReadFile_temp_ok = True, MkdirAll_ok = True,
      ReadFile = (\<lambda>p. NotExist), WriteFile_ok = True, Remove_temp_ok = True\<rparr>"

section \<open>Properties of the layout language\<close>

lemmas layout_defs = nextStdChunk_def std_at_def std_J_def std_M_def std_0_def std_1_def
  std_2_def std_underscore_def std_minus_def std_Z_def std_frac_def std0x_def
  HasPrefix_def startsWithLowerCase_def isDigit_def byte_def

lemma appendFormat_buffer_any:
  "appendFormat t b layout = b @ appendFormat t [] layout"
proof (induction "length layout" arbitrary: layout b rule: less_induct)
  case less
  show ?case
  proof (cases layout)
    case Nil
    then show ?thesis by simp
  next
    case (Cons c cs)
    obtain prefix s suffix where ch: "nextStdChunk layout = (prefix, s, suffix)"
      by (cases "nextStdChunk layout")
    show ?thesis
    proof (cases s)
      case None
      with ch Cons show ?thesis by simp
    next
      case (Some x)
      with ch have "length suffix < length layout"
        by (auto simp: nextStdChunk_def dest: scan_std_shorter)
      then have ih: "appendFormat t b' suffix = b' @ appendFormat t [] suffix" for b'
        by (rule less.hyps)
      have "appendFormat t b layout = appendFormat t (b @ prefix @ format_std t x) suffix"
        using ch Some Cons by simp
      also have "\<dots> = b @ (prefix @ format_std t x) @ appendFormat t [] suffix"
        using ih [of "b @ prefix @ format_std t x"] by simp
      also have "\<dots> = b @ appendFormat t (prefix @ format_std t x) suffix"
        using ih [of "prefix @ format_std t x"] by simp
      also have "\<dots> = b @ appendFormat t [] layout"
        using ch Some Cons by simp
      finally show ?thesis .
    qed
  qed
qed

lemma header_fixed_part:
  "appendFormat t [] (''--- Monday Jan _2 2006'' @ rest) = appendFormat t (header_date t) rest"
  by (simp add: layout_defs header_date_def)

lemma header_split:
  "header t tz = header_date t @ Format t ('' in '' @ tz @ '' ---'') @ [newline]"
proof -
  have "Format t (''--- Monday Jan _2 2006 in '' @ tz @ '' ---'')
          = appendFormat t [] (''--- Monday Jan _2 2006'' @ ('' in '' @ tz @ '' ---''))"
    by (simp add: Format_def)
  also have "\<dots> = appendFormat t (header_date t) ('' in '' @ tz @ '' ---'')"
    by (rule header_fixed_part)
  also have "\<dots> = header_date t @ Format t ('' in '' @ tz @ '' ---'')"
    unfolding Format_def by (rule appendFormat_buffer_any)
  finally show ?thesis by (simp add: header_def)
qed

lemma scan_std_prefix:
  "scan_std pre l = (pre @ fst (scan_std [] l), snd (scan_std [] l))"
proof (induction l arbitrary: pre)
  case Nil
  show ?case by simp
next
  case (Cons c cs)
  show ?case
  proof (cases "std_at (c # cs)")
    case None
    with Cons [of "pre @ [c]"] Cons [of "[c]"] show ?thesis by simp
  next
    case (Some r)
    then show ?thesis by (cases r) simp
  qed
qed

lemma scan_std_None:
  "fst (snd (scan_std pre l)) = None \<Longrightarrow> scan_std pre l = (pre @ l, None, [])"
proof (induction l arbitrary: pre)
  case Nil
  show ?case by simp
next
  case (Cons c cs)
  show ?case
  proof (cases "std_at (c # cs)")
    case None
    with Cons.prems have "fst (snd (scan_std (pre @ [c]) cs)) = None" by simp
    from Cons.IH [OF this] None show ?thesis by simp
  next
    case (Some r)
    with Cons.prems show ?thesis by (cases r) simp
  qed
qed

lemma Format_plain:
  assumes "plain_layout l"
  shows "Format t l = l"
proof (cases l)
  case Nil
  then show ?thesis by (simp add: Format_def)
next
  case (Cons c cs)
  from assms have "scan_std [] l = ([] @ l, None, [])"
    unfolding plain_layout_def nextStdChunk_def by (rule scan_std_None)
  with Cons show ?thesis by (simp add: Format_def nextStdChunk_def)
qed

lemma plain_layout_in: "plain_layout l \<Longrightarrow> plain_layout ('' in '' @ l)"
proof -
  assume "plain_layout l"
  then have "fst (snd (scan_std [] l)) = None"
    by (simp add: plain_layout_def nextStdChunk_def)
  then have "fst (snd (scan_std '' in '' l)) = None"
    by (subst scan_std_prefix) simp
  then show ?thesis
    by (simp add: plain_layout_def nextStdChunk_def std_at_def)
qed

lemma header_plain:
  assumes "plain_layout (tz @ '' ---'')"
  shows "header t tz = header_date t @ '' in '' @ tz @ '' ---'' @ [newline]"
proof -
  from assms have "plain_layout ('' in '' @ tz @ '' ---'')" by (rule plain_layout_in)
  from Format_plain [OF this, of t] show ?thesis
    by (simp add: header_split)
qed

lemma digits_of_digits: "set (digits_of n) \<subseteq> set ''0123456789''"
proof (induction n rule: digits_of.induct)
  case (1 n)
  have d: "''0123456789'' ! k \<in> set ''0123456789''" if "k < 10" for k
    using that by (intro nth_mem) simp
  show ?case
  proof (cases "n < 10")
    case True
    with d [of n] show ?thesis by (subst digits_of.simps) simp
  next
    case False
    have "n mod 10 < 10" by simp
    with d [of "n mod 10"] "1.IH" False show ?thesis
      by (subst digits_of.simps) simp
  qed
qed

lemma digits_of_no_newline: "newline \<notin> set (digits_of n)"
  using digits_of_digits [of n] by auto

lemma appendInt_no_newline: "newline \<notin> set (appendInt x w)"
  by (simp add: appendInt_def Let_def digits_of_no_newline)

lemma weekday_String_no_newline: "newline \<notin> set (weekday_String d)"
proof (cases "d \<le> 6")
  case True
  have "length longDayNames = 7" by (simp add: longDayNames_def)
  with True have "d < length longDayNames" by arith
  then have "longDayNames ! d \<in> set longDayNames" by (rule nth_mem)
  moreover have "\<forall>s \<in> set longDayNames. newline \<notin> set s"
    by (simp add: longDayNames_def)
  ultimately show ?thesis using True by (simp add: weekday_String_def)
next
  case False
  then show ?thesis by (auto simp: weekday_String_def digits_of_no_newline)
qed

lemma month_String_no_newline: "newline \<notin> set (month_String m)"
proof (cases "1 \<le> m \<and> m \<le> 12")
  case True
  have "length longMonthNames = 12" by (simp add: longMonthNames_def)
  with True have "m - 1 < length longMonthNames" by arith
  then have "longMonthNames ! (m - 1) \<in> set longMonthNames" by (rule nth_mem)
  moreover have "\<forall>s \<in> set longMonthNames. newline \<notin> set s"
    by (simp add: longMonthNames_def)
  ultimately show ?thesis using True by (simp add: month_String_def)
next
  case False
  then show ?thesis by (auto simp: month_String_def digits_of_no_newline)
qed

lemma header_date_no_newline: "newline \<notin> set (header_date t)"
  using set_take_subset [of 3 "month_String (t_month t)"]
    month_String_no_newline [of "t_month t"]
  by (auto simp: header_date_def weekday_String_no_newline appendInt_no_newline)

lemma header_one_line:
  assumes "plain_layout (tz @ '' ---'')" and "newline \<notin> set tz"
  shows "newline \<notin> set (butlast (header t tz))"
  using assms(2) by (simp add: header_plain [OF assms(1)] butlast_append header_date_no_newline)

lemma header_marker: "HasPrefix (header t tz) ''---''"
  by (simp add: header_split header_date_def HasPrefix_def)

section \<open>Properties of the assembled file\<close>

lemma header_newline: "header t tz \<noteq> [] \<and> last (header t tz) = newline"
  by (simp add: header_def)

lemma assemble_parts:
  "assemble include_header existing t tz snippet =
     (if include_header \<and> \<not> HasPrefix existing ''---''
      then header t (timezone_or_placeholder tz) else [])
     @ existing
     @ (if existing \<noteq> [] \<and> last existing \<noteq> newline then [newline] else [])
     @ snippet"
proof (cases "existing = []")
  case True
  then show ?thesis by (simp add: assemble_def Let_def)
next
  case False
  then have "existing ! (length existing - 1) = last existing"
    by (simp add: last_conv_nth)
  with False show ?thesis by (simp add: assemble_def Let_def)
qed

lemma no_marker_after_header:
  assumes "existing \<noteq> []" and "\<not> HasPrefix existing ''---''"
  shows "\<not> HasPrefix
            (existing @ (if existing \<noteq> [] \<and> last existing \<noteq> newline then [newline] else [])
               @ snippet) ''---''"
proof (cases existing)
  case Nil
  with assms show ?thesis by simp
next
  case c1: (Cons a r)
  show ?thesis
  proof (cases r)
    case Nil
    with c1 assms show ?thesis by (auto simp: HasPrefix_def)
  next
    case c2: (Cons b r')
    show ?thesis
    proof (cases r')
      case Nil
      with c1 c2 assms show ?thesis by (auto simp: HasPrefix_def)
    next
      case (Cons c r'')
      with c1 c2 assms show ?thesis by (auto simp: HasPrefix_def)
    qed
  qed
qed

lemma first_line_append:
  assumes "existing \<noteq> []"
  shows "takeWhile (\<lambda>c. c \<noteq> newline)
           (existing @ (if existing \<noteq> [] \<and> last existing \<noteq> newline then [newline] else [])
              @ snippet)
         = takeWhile (\<lambda>c. c \<noteq> newline) existing"
proof (cases "newline \<in> set existing")
  case True
  then show ?thesis by (simp add: takeWhile_append1 [where x = newline] )
next
  case False
  with assms have l: "last existing \<noteq> newline" using last_in_set by metis
  from False have all: "\<forall>c \<in> set existing. c \<noteq> newline" by auto
  then have a: "takeWhile (\<lambda>c. c \<noteq> newline) existing = existing"
    by (simp only: takeWhile_eq_all_conv)
  have b: "takeWhile (\<lambda>c. c \<noteq> newline) (existing @ [newline] @ snippet) = existing"
    using all by (simp add: takeWhile_append2)
  from l assms
  have c: "(if existing \<noteq> [] \<and> last existing \<noteq> newline then [newline] else []) = [newline]"
    by simp
  show ?thesis by (simp only: a b c)
qed

lemma replace_from_newline:
  "replace_from s [newline] '' '' = map (\<lambda>c. if c = newline then CHR '' '' else c) s"
  by (induction s) (auto simp: HasPrefix_def)

lemma snippet_line_Inr:
  "snippet_line raw = Inr line \<longleftrightarrow>
     TrimSpace raw \<noteq> [] \<and>
     line = map (\<lambda>c. if c = newline then CHR '' '' else c) (TrimSpace raw) @ [newline]"
  by (auto simp: snippet_line_def Let_def ReplaceAll_def replace_from_newline)

lemma snippet_line_head:
  "snippet_line raw = Inr line \<Longrightarrow> line \<noteq> [] \<and> hd line \<noteq> newline \<and> last line = newline"
  by (cases "TrimSpace raw") (auto simp: snippet_line_Inr)

lemma assemble_marked:
  assumes "HasPrefix existing ''---''"
  shows "assemble inc existing t tz s =
           existing @ (if last existing \<noteq> newline then [newline] else []) @ s"
    and "HasPrefix (assemble inc existing t tz s) ''---''"
    and "HasPrefix (assemble inc existing t tz s) existing"
    and "takeWhile (\<lambda>c. c \<noteq> newline) (assemble inc existing t tz s)
           = takeWhile (\<lambda>c. c \<noteq> newline) existing"
proof -
  from assms have ne: "existing \<noteq> []" by (auto simp: HasPrefix_def)
  have eq: "assemble inc existing t tz s =
              existing @ (if existing \<noteq> [] \<and> last existing \<noteq> newline then [newline] else [])
              @ s"
    using assms by (simp add: assemble_parts)
  with ne show "assemble inc existing t tz s =
           existing @ (if last existing \<noteq> newline then [newline] else []) @ s"
    by simp
  have "HasPrefix (existing @ ys) ''---''" for ys
    using assms by (auto simp: HasPrefix_def)
  then show "HasPrefix (assemble inc existing t tz s) ''---''"
    by (simp only: eq)
  have "HasPrefix (existing @ ys) existing" for ys
    by (simp add: HasPrefix_def)
  then show "HasPrefix (assemble inc existing t tz s) existing"
    by (simp only: eq)
  show "takeWhile (\<lambda>c. c \<noteq> newline) (assemble inc existing t tz s)
           = takeWhile (\<lambda>c. c \<noteq> newline) existing"
    by (simp only: eq first_line_append [OF ne])
qed

section \<open>Properties of \<open>run\<close>\<close>

lemma run_reaches_write:
  assumes "timeFormat e \<noteq> []" and "CreateTemp_ok e" and "edit_snippet e = Inr tmp"
    and "ReadFile_temp_ok e" and "snippet_line tmp = Inr snippet"
    and "snippetPath e (now e) = Inr path" and "MkdirAll_ok e"
    and "ReadFile e path \<noteq> ReadFailed" and "WriteFile_ok e"
  shows "run e =
           \<lparr>err = None,
            written = Some (path,
              assemble (includeHeader e) (case ReadFile e path of Contents bs \<Rightarrow> bs | _ \<Rightarrow> [])
                (now e) (inferLocalTimezone e) snippet),
            logged =
              assemble_log (includeHeader e)
                (case ReadFile e path of Contents bs \<Rightarrow> bs | _ \<Rightarrow> []) (inferLocalTimezone e)
              @ (if Remove_temp_ok e then [] else [LogRemoveTempFailed])\<rparr>"
  using assms
  by (cases "ReadFile e path") (simp_all add: run_def commit_def deferred_Remove_def Let_def)

lemma run_nil_reached_write:
  assumes "err (run e) = None"
  shows "timeFormat e \<noteq> [] \<and> CreateTemp_ok e \<and> ReadFile_temp_ok e \<and> MkdirAll_ok e
         \<and> WriteFile_ok e
         \<and> (\<exists>tmp snippet path. edit_snippet e = Inr tmp \<and> snippet_line tmp = Inr snippet
               \<and> snippetPath e (now e) = Inr path \<and> ReadFile e path \<noteq> ReadFailed)"
  using assms
  by (auto simp: run_def commit_def deferred_Remove_def failed_def Let_def
      split: if_splits sum.splits read_result.splits)

lemma run_written:
  assumes "written (run e) = Some (path, bs)"
  shows "err (run e) = None \<and> snippetPath e (now e) = Inr path
         \<and> ReadFile e path \<noteq> ReadFailed
         \<and> (\<exists>tmp snippet. edit_snippet e = Inr tmp \<and> snippet_line tmp = Inr snippet
               \<and> bs = assemble (includeHeader e)
                        (case ReadFile e path of Contents bs \<Rightarrow> bs | _ \<Rightarrow> [])
                        (now e) (inferLocalTimezone e) snippet)"
  using assms
  by (auto simp: run_def commit_def deferred_Remove_def failed_def Let_def
      split: if_splits sum.splits read_result.splits)

lemma run_nil_written:
  assumes "err (run e) = None"
  shows "\<exists>path tmp snippet.
           snippetPath e (now e) = Inr path \<and> edit_snippet e = Inr tmp
           \<and> snippet_line tmp = Inr snippet
           \<and> written (run e) = Some (path,
                assemble (includeHeader e)
                  (case ReadFile e path of Contents bs \<Rightarrow> bs | _ \<Rightarrow> [])
                  (now e) (inferLocalTimezone e) snippet)"
proof -
  from run_nil_reached_write [OF assms] obtain tmp snippet path where
    "timeFormat e \<noteq> []" "CreateTemp_ok e" "edit_snippet e = Inr tmp" "ReadFile_temp_ok e"
    "snippet_line tmp = Inr snippet" "snippetPath e (now e) = Inr path" "MkdirAll_ok e"
    "ReadFile e path \<noteq> ReadFailed" "WriteFile_ok e"
    by blast
  from this run_reaches_write [OF this] show ?thesis by simp
qed

lemma edit_snippet_Inr:
  assumes "edit_snippet e = Inr tmp"
  shows "WriteString_timestamp_ok e \<and> (message e \<noteq> [] \<longrightarrow> WriteString_title_ok e)
         \<and> (edit e \<or> message e = [] \<longrightarrow>
              run_editor e (if EDITOR e \<noteq> [] then EDITOR e else ''vim'')
                (Format (now e) (timeFormat e) @ '' | '' @ message e) = Some tmp)
         \<and> (\<not> (edit e \<or> message e = []) \<longrightarrow>
              tmp = Format (now e) (timeFormat e) @ '' | '' @ message e)"
  using assms
  by (auto simp: edit_snippet_def Let_def split: if_splits option.splits)

lemma snippetPath_Inr:
  "snippetPath e t = Inr path \<Longrightarrow> \<not> IsZero t \<and> UserHomeDir e \<noteq> None"
  by (auto simp: snippetPath_def baseDir_def split: if_splits option.splits)

section \<open>The example, evaluated\<close>

lemmas time_defs = weekday_def days_from_civil_def year_day_def weekday_String_def
  longDayNames_def month_String_def longMonthNames_def appendInt_def digits_of.simps
  IsZero_def abs_seconds_def

lemmas trim_defs = asciiSpace_def byte_def RuneSelf_def TrimSpace_stop.simps

lemma example_timestamp: "Format example_now ''15:04'' = ''09:30''"
  by (simp add: Format_def layout_defs time_defs example_now_def)

lemma example_date: "Format example_now ''2006-01-02'' = ''2024-11-20''"
  by (simp add: Format_def layout_defs time_defs example_now_def)

lemma example_header_date: "header_date example_now = ''--- Wednesday Nov 20 2024''"
  by (simp add: header_date_def time_defs example_now_def)

lemma example_header:
  "header example_now ''Europe/Dublin'' = ''--- Wednesday Nov 20 2024 in Europe/Dublin ---\<newline>''"
proof -
  have "plain_layout (''Europe/Dublin'' @ '' ---'')"
    by (simp add: plain_layout_def layout_defs)
  from header_plain [OF this, of example_now] show ?thesis
    by (simp add: example_header_date)
qed

lemma example_not_zero: "\<not> IsZero example_now"
  by (simp add: time_defs example_now_def)

lemma example_path:
  "snippetPath e example_now =
     (case UserHomeDir e of None \<Rightarrow> Inl ErrResolveSnipDir
      | Some home \<Rightarrow> Inr [home, ''.snip'', ''2024-11-20.txt''])"
  by (simp add: snippetPath_def baseDir_def example_not_zero example_date split: option.splits)

lemma example_snippet_line: "snippet_line ''09:30 | at desk'' = Inr ''09:30 | at desk\<newline>''"
  by (simp add: snippet_line_Inr trim_defs)

lemma example_blank: "TrimSpace '' \<newline>'' = []"
  by (simp add: trim_defs)

lemma example_edit_snippet: "edit_snippet example_env = Inr ''09:30 | at desk''"
  by (simp add: edit_snippet_def example_env_def example_timestamp)

lemma example_run:
  "run example_env =
     \<lparr>err = None,
      written = Some ([''/Users/saser'', ''.snip'', ''2024-11-20.txt''],
        ''--- Wednesday Nov 20 2024 in Europe/Dublin ---\<newline>09:30 | at desk\<newline>''),
      logged = []\<rparr>"
proof -
  have p: "snippetPath example_env (now example_env)
             = Inr [''/Users/saser'', ''.snip'', ''2024-11-20.txt'']"
    by (simp add: example_env_def example_path)
  have tz: "inferLocalTimezone example_env = Inr ''Europe/Dublin''"
    by (simp add: inferLocalTimezone_def example_env_def)
  have "run example_env =
           \<lparr>err = None,
            written = Some ([''/Users/saser'', ''.snip'', ''2024-11-20.txt''],
              assemble True [] example_now (Inr ''Europe/Dublin'') ''09:30 | at desk\<newline>''),
            logged = []\<rparr>"
    using run_reaches_write [OF _ _ example_edit_snippet _ example_snippet_line p]
    by (simp add: tz assemble_log_def) (simp add: example_env_def)
  then show ?thesis
    by (simp add: assemble_parts timezone_or_placeholder_def example_header HasPrefix_def)
qed

section \<open>The claims\<close>

text \<open>
  In the statements below the newline separator written by line 223 appears as
  \<open>if existing \<noteq> [] \<and> last existing \<noteq> newline then [newline] else []\<close>, and the
  content of the day file that \<open>run\<close> works with as
  \<open>case ReadFile e path of Contents bs \<Rightarrow> bs | _ \<Rightarrow> []\<close>.
\<close>

text \<open>
  C1. The assembled output starts with a freshly formatted header exactly when header
  inclusion is enabled and the existing content does not start with \<open>---\<close>; otherwise
  nothing is put before the existing content. The header starts with the marker and
  ends with a newline, and it is one line (its only newline is the last byte) when
  the timezone name holds neither a layout element nor a newline. When the header is
  put before non-empty content without the marker, what follows it does not start
  with the marker: there is one header, not two.
\<close>

theorem header_emitted_iff:
  "(include_header \<and> \<not> HasPrefix existing ''---'' \<longrightarrow>
      assemble include_header existing t tz snippet =
        header t (timezone_or_placeholder tz) @ existing
        @ (if existing \<noteq> [] \<and> last existing \<noteq> newline then [newline] else []) @ snippet)
   \<and> (\<not> (include_header \<and> \<not> HasPrefix existing ''---'') \<longrightarrow>
      assemble include_header existing t tz snippet =
        existing @ (if existing \<noteq> [] \<and> last existing \<noteq> newline then [newline] else [])
        @ snippet)
   \<and> HasPrefix (header t (timezone_or_placeholder tz)) ''---''
   \<and> last (header t (timezone_or_placeholder tz)) = newline
   \<and> (plain_layout (timezone_or_placeholder tz @ '' ---'')
        \<and> newline \<notin> set (timezone_or_placeholder tz) \<longrightarrow>
      newline \<notin> set (butlast (header t (timezone_or_placeholder tz))))
   \<and> (existing \<noteq> [] \<and> \<not> HasPrefix existing ''---'' \<longrightarrow>
      \<not> HasPrefix
          (existing @ (if existing \<noteq> [] \<and> last existing \<noteq> newline then [newline] else [])
             @ snippet) ''---'')"
  using no_marker_after_header [of existing snippet]
    header_one_line [of "timezone_or_placeholder tz" t]
  by (simp only: assemble_parts header_marker header_newline) simp

theorem header_emitted_iff_witness:
  "\<not> HasPrefix ''note'' ''---''
   \<and> assemble True ''note'' example_now (Inr ''Europe/Dublin'') ''09:53 | b\<newline>''
       = ''--- Wednesday Nov 20 2024 in Europe/Dublin ---\<newline>note\<newline>09:53 | b\<newline>''
   \<and> assemble False ''note'' example_now (Inr ''Europe/Dublin'') ''09:53 | b\<newline>''
       = ''note\<newline>09:53 | b\<newline>''
   \<and> plain_layout (''Europe/Dublin'' @ '' ---'')
   \<and> newline \<notin> set (butlast (header example_now ''Europe/Dublin''))
   \<and> \<not> HasPrefix ''note\<newline>09:53 | b\<newline>'' ''---''"
proof -
  have pl: "plain_layout (''Europe/Dublin'' @ '' ---'')"
    by (simp add: plain_layout_def layout_defs)
  have nl: "newline \<notin> set ''Europe/Dublin''" by simp
  have tz: "timezone_or_placeholder (Inr ''Europe/Dublin'') = ''Europe/Dublin''"
    by (simp add: timezone_or_placeholder_def)
  note T = header_emitted_iff [of True "''note''" example_now "Inr ''Europe/Dublin''"
      "''09:53 | b\<newline>''", unfolded tz]
  note F = header_emitted_iff [of False "''note''" example_now "Inr ''Europe/Dublin''"
      "''09:53 | b\<newline>''", unfolded tz]
  have m: "\<not> HasPrefix ''note'' ''---''" by (simp add: HasPrefix_def)
  from T m have "assemble True ''note'' example_now (Inr ''Europe/Dublin'') ''09:53 | b\<newline>''
       = header example_now ''Europe/Dublin'' @ ''note\<newline>09:53 | b\<newline>''"
    by simp
  then have a: "assemble True ''note'' example_now (Inr ''Europe/Dublin'') ''09:53 | b\<newline>''
       = ''--- Wednesday Nov 20 2024 in Europe/Dublin ---\<newline>note\<newline>09:53 | b\<newline>''"
    by (simp add: example_header)
  from F have b: "assemble False ''note'' example_now (Inr ''Europe/Dublin'') ''09:53 | b\<newline>''
       = ''note\<newline>09:53 | b\<newline>''"
    by simp
  from T pl nl have c: "newline \<notin> set (butlast (header example_now ''Europe/Dublin''))"
    by blast
  have d: "\<not> HasPrefix ''note\<newline>09:53 | b\<newline>'' ''---''" by (simp add: HasPrefix_def)
  from m a b pl c d show ?thesis by blast
qed

text \<open>
  C2. When the existing content starts with \<open>---\<close>, the output is the existing content
  followed by the separator and the snippet, whatever the value of the flag; its first
  line is the first line of the existing content. For \<open>run\<close>: the bytes written to a
  day file that started with \<open>---\<close> start with the file's previous content.
\<close>

theorem existing_header_kept:
  "(HasPrefix existing ''---'' \<longrightarrow>
      assemble include_header existing t tz snippet =
        existing @ (if last existing \<noteq> newline then [newline] else []) @ snippet
      \<and> assemble True existing t tz snippet = assemble False existing t tz snippet
      \<and> HasPrefix (assemble include_header existing t tz snippet) ''---''
      \<and> takeWhile (\<lambda>c. c \<noteq> newline) (assemble include_header existing t tz snippet)
          = takeWhile (\<lambda>c. c \<noteq> newline) existing)
   \<and> (ReadFile e path = Contents existing \<and> HasPrefix existing ''---''
        \<and> written (run e) = Some (path, bs) \<longrightarrow>
      HasPrefix bs existing
      \<and> takeWhile (\<lambda>c. c \<noteq> newline) bs = takeWhile (\<lambda>c. c \<noteq> newline) existing)"
proof (intro conjI impI)
  assume m: "HasPrefix existing ''---''"
  show "assemble include_header existing t tz snippet =
        existing @ (if last existing \<noteq> newline then [newline] else []) @ snippet"
    by (rule assemble_marked(1) [OF m])
  show "assemble True existing t tz snippet = assemble False existing t tz snippet"
    by (simp only: assemble_marked(1) [OF m])
  show "HasPrefix (assemble include_header existing t tz snippet) ''---''"
    by (rule assemble_marked(2) [OF m])
  show "takeWhile (\<lambda>c. c \<noteq> newline) (assemble include_header existing t tz snippet)
          = takeWhile (\<lambda>c. c \<noteq> newline) existing"
    by (rule assemble_marked(4) [OF m])
next
  assume a: "ReadFile e path = Contents existing \<and> HasPrefix existing ''---''
        \<and> written (run e) = Some (path, bs)"
  then have m: "HasPrefix existing ''---''" by simp
  from a have w: "written (run e) = Some (path, bs)" by simp
  from run_written [OF w] a obtain s where
    bs: "bs = assemble (includeHeader e) existing (now e) (inferLocalTimezone e) s"
    by auto
  show "HasPrefix bs existing"
    unfolding bs by (rule assemble_marked(3) [OF m])
  show "takeWhile (\<lambda>c. c \<noteq> newline) bs = takeWhile (\<lambda>c. c \<noteq> newline) existing"
    unfolding bs by (rule assemble_marked(4) [OF m])
qed

theorem existing_header_kept_witness:
  "HasPrefix ''--- Wednesday Nov 20 2024 in Europe/Dublin ---\<newline>09:30 | at desk\<newline>'' ''---''
   \<and> assemble False
         ''--- Wednesday Nov 20 2024 in Europe/Dublin ---\<newline>09:30 | at desk\<newline>''
         example_now (Inl ErrEvalSymlinks) ''09:53 | reviewed\<newline>''
       = ''--- Wednesday Nov 20 2024 in Europe/Dublin ---\<newline>09:30 | at desk\<newline>09:53 | reviewed\<newline>''
   \<and> written (run (example_env\<lparr>includeHeader := False,
          ReadFile := (\<lambda>p. Contents ''--- kept\<newline>'')\<rparr>))
       = Some ([''/Users/saser'', ''.snip'', ''2024-11-20.txt''],
               ''--- kept\<newline>09:30 | at desk\<newline>'')
   \<and> HasPrefix ''--- kept\<newline>09:30 | at desk\<newline>'' ''--- kept\<newline>''"
proof -
  let ?e = "example_env\<lparr>includeHeader := False, ReadFile := (\<lambda>p. Contents ''--- kept\<newline>'')\<rparr>"
  let ?p = "[''/Users/saser'', ''.snip'', ''2024-11-20.txt'']"
  have e: "edit_snippet ?e = Inr ''09:30 | at desk''"
    by (simp add: edit_snippet_def example_env_def example_timestamp)
  have p: "snippetPath ?e (now ?e) = Inr ?p"
    by (simp add: example_env_def example_path)
  have w: "written (run ?e) = Some (?p, ''--- kept\<newline>09:30 | at desk\<newline>'')"
    using run_reaches_write [OF _ _ e _ example_snippet_line p]
    by (simp add: assemble_parts HasPrefix_def) (simp add: example_env_def)
  have r: "ReadFile ?e ?p = Contents ''--- kept\<newline>''"
    by (simp add: example_env_def)
  have m: "HasPrefix ''--- kept\<newline>'' ''---''"
    by (simp add: HasPrefix_def)
  from r m w
    existing_header_kept [of "''--- kept\<newline>''" False example_now "Inl ErrEvalSymlinks"
      "''09:53 | reviewed\<newline>''" ?e ?p "''--- kept\<newline>09:30 | at desk\<newline>''"]
    existing_header_kept [of
      "''--- Wednesday Nov 20 2024 in Europe/Dublin ---\<newline>09:30 | at desk\<newline>''"
      False example_now "Inl ErrEvalSymlinks" "''09:53 | reviewed\<newline>''" ?e ?p "[]"]
  show ?thesis
    by (simp add: HasPrefix_def)
qed

text \<open>
  C3. The output is the emitted header (possibly empty), then all existing bytes
  unchanged and in order, then the separator (possibly empty), then the snippet: the
  existing bytes are the block of the output that starts right after the header.
\<close>

theorem existing_bytes_verbatim:
  "assemble include_header existing t tz snippet =
     (if include_header \<and> \<not> HasPrefix existing ''---''
      then header t (timezone_or_placeholder tz) else [])
     @ existing
     @ (if existing \<noteq> [] \<and> last existing \<noteq> newline then [newline] else [])
     @ snippet
   \<and> take (length existing)
        (drop (length (if include_header \<and> \<not> HasPrefix existing ''---''
                       then header t (timezone_or_placeholder tz) else []))
           (assemble include_header existing t tz snippet)) = existing"
  by (simp add: assemble_parts)

theorem existing_bytes_verbatim_witness:
  "take (length ''note'')
     (drop (length (header example_now ''Europe/Dublin''))
        (assemble True ''note'' example_now (Inr ''Europe/Dublin'') ''09:53 | b\<newline>''))
   = ''note''"
  using existing_bytes_verbatim [of True "''note''" example_now "Inr ''Europe/Dublin''"
      "''09:53 | b\<newline>''"]
  by (simp add: timezone_or_placeholder_def HasPrefix_def)

text \<open>
  C4. With a snippet line as \<open>run\<close> builds it: after non-empty existing content that
  does not end in a newline the output has one newline and then the snippet line, which
  itself does not start with a newline; with empty existing content the output does
  not start with a newline; after existing content that ends in a newline the snippet
  line follows directly.
\<close>

theorem newline_separator:
  assumes "snippet_line raw = Inr snippet"
  shows "(existing \<noteq> [] \<and> last existing \<noteq> newline \<longrightarrow>
            assemble include_header existing t tz snippet =
              (if include_header \<and> \<not> HasPrefix existing ''---''
               then header t (timezone_or_placeholder tz) else [])
              @ existing @ [newline] @ snippet)
         \<and> (existing = [] \<longrightarrow>
              assemble include_header existing t tz snippet \<noteq> []
              \<and> hd (assemble include_header existing t tz snippet) \<noteq> newline)
         \<and> (existing \<noteq> [] \<and> last existing = newline \<longrightarrow>
              assemble include_header existing t tz snippet =
                (if include_header \<and> \<not> HasPrefix existing ''---''
                 then header t (timezone_or_placeholder tz) else [])
                @ existing @ snippet)
         \<and> hd snippet \<noteq> newline"
proof -
  from assms have s: "snippet \<noteq> []" "hd snippet \<noteq> newline"
    by (auto dest: snippet_line_head)
  have h: "hd (header t z @ ys) \<noteq> newline" for z ys
    using header_marker [of t z] by (cases "header t z") (auto simp: HasPrefix_def)
  from s h show ?thesis
    by (auto simp: assemble_parts)
qed

theorem newline_separator_witness:
  "snippet_line ''09:30 | at desk'' = Inr ''09:30 | at desk\<newline>''
   \<and> assemble False ''foo'' example_now (Inr ''Europe/Dublin'') ''09:30 | at desk\<newline>''
       = ''foo\<newline>09:30 | at desk\<newline>''
   \<and> hd (assemble True [] example_now (Inr ''Europe/Dublin'') ''09:30 | at desk\<newline>'')
       \<noteq> newline
   \<and> assemble False ''foo\<newline>'' example_now (Inr ''Europe/Dublin'') ''09:30 | at desk\<newline>''
       = ''foo\<newline>09:30 | at desk\<newline>''"
  using
    newline_separator [OF example_snippet_line, of "''foo''" False example_now
      "Inr ''Europe/Dublin''"]
    newline_separator [OF example_snippet_line, of "[]" True example_now
      "Inr ''Europe/Dublin''"]
    newline_separator [OF example_snippet_line, of "''foo\<newline>''" False example_now
      "Inr ''Europe/Dublin''"]
  by (simp add: example_snippet_line HasPrefix_def)

text \<open>
  C5. When the bytes read back from the temporary file are empty after trimming, \<open>run\<close>
  returns the error "snippet is empty", no file is written, and every file reads
  afterwards as it did before.
\<close>

theorem empty_snippet_aborts:
  assumes "timeFormat e \<noteq> []" and "CreateTemp_ok e" and "edit_snippet e = Inr raw"
    and "ReadFile_temp_ok e" and "TrimSpace raw = []"
  shows "snippet_line raw = Inl ErrSnippetEmpty
         \<and> err (run e) = Some ErrSnippetEmpty
         \<and> written (run e) = None
         \<and> (\<forall>p. ReadFile_after e p = ReadFile e p)"
proof -
  from assms(5) have s: "snippet_line raw = Inl ErrSnippetEmpty"
    by (simp add: snippet_line_def)
  with assms have "err (run e) = Some ErrSnippetEmpty" and w: "written (run e) = None"
    by (simp_all add: run_def commit_def deferred_Remove_def failed_def)
  with s show ?thesis by (simp add: ReadFile_after_def)
qed

theorem empty_snippet_aborts_witness:
  "TrimSpace '' \<newline>'' = []
   \<and> err (run (example_env\<lparr>message := [], run_editor := (\<lambda>editor tmp. Some '' \<newline>'')\<rparr>))
       = Some ErrSnippetEmpty
   \<and> written (run (example_env\<lparr>message := [],
         run_editor := (\<lambda>editor tmp. Some '' \<newline>'')\<rparr>)) = None"
proof -
  let ?e = "example_env\<lparr>message := [], run_editor := (\<lambda>editor tmp. Some '' \<newline>'')\<rparr>"
  have e: "edit_snippet ?e = Inr '' \<newline>''"
    by (simp add: edit_snippet_def example_env_def)
  have "timeFormat ?e \<noteq> []" and "CreateTemp_ok ?e" and "ReadFile_temp_ok ?e"
    by (simp_all add: example_env_def)
  from empty_snippet_aborts [OF this(1,2) e this(3) example_blank] example_blank
  show ?thesis by blast
qed

text \<open>
  C6. When the bytes read back are not empty after trimming, the snippet line is the
  trimmed bytes with every newline byte replaced by one space, followed by one newline:
  it has one byte more than the trimmed input, and its only newline is its last byte.
  The bytes that \<open>run\<close> writes end with this line.
\<close>

theorem snippet_single_line:
  "(TrimSpace raw \<noteq> [] \<longrightarrow>
      (\<exists>line. snippet_line raw = Inr line
         \<and> line = map (\<lambda>c. if c = newline then CHR '' '' else c) (TrimSpace raw) @ [newline]
         \<and> length line = length (TrimSpace raw) + 1
         \<and> newline \<notin> set (butlast line)
         \<and> last line = newline))
   \<and> (edit_snippet e = Inr raw \<and> written (run e) = Some (path, bs) \<longrightarrow>
      TrimSpace raw \<noteq> []
      \<and> (\<exists>before. bs = before
             @ map (\<lambda>c. if c = newline then CHR '' '' else c) (TrimSpace raw) @ [newline]))"
proof (intro conjI impI)
  assume "TrimSpace raw \<noteq> []"
  then show "\<exists>line. snippet_line raw = Inr line
         \<and> line = map (\<lambda>c. if c = newline then CHR '' '' else c) (TrimSpace raw) @ [newline]
         \<and> length line = length (TrimSpace raw) + 1
         \<and> newline \<notin> set (butlast line)
         \<and> last line = newline"
    by (auto simp: snippet_line_Inr)
next
  assume a: "edit_snippet e = Inr raw \<and> written (run e) = Some (path, bs)"
  then have w: "written (run e) = Some (path, bs)" and r: "edit_snippet e = Inr raw"
    by simp_all
  from run_written [OF w] r obtain snippet where
    s: "snippet_line raw = Inr snippet" and
    bs: "bs = assemble (includeHeader e)
                (case ReadFile e path of Contents bs \<Rightarrow> bs | _ \<Rightarrow> [])
                (now e) (inferLocalTimezone e) snippet"
    by auto
  from s show "TrimSpace raw \<noteq> []" by (simp add: snippet_line_Inr)
  from s have l: "snippet = map (\<lambda>c. if c = newline then CHR '' '' else c) (TrimSpace raw)
                    @ [newline]"
    by (simp add: snippet_line_Inr)
  have "\<exists>before. assemble inc ex t tz snippet = before @ snippet" for inc ex t tz
    by (simp only: assemble_parts append_assoc [symmetric]) blast
  then show "\<exists>before. bs = before
             @ map (\<lambda>c. if c = newline then CHR '' '' else c) (TrimSpace raw) @ [newline]"
    unfolding bs l .
qed

theorem snippet_single_line_witness:
  "TrimSpace ''  09:30 | one\<newline>two \<newline>'' = ''09:30 | one\<newline>two''
   \<and> snippet_line ''  09:30 | one\<newline>two \<newline>'' = Inr ''09:30 | one two\<newline>''
   \<and> edit_snippet example_env = Inr ''09:30 | at desk''
   \<and> written (run example_env)
       = Some ([''/Users/saser'', ''.snip'', ''2024-11-20.txt''],
           ''--- Wednesday Nov 20 2024 in Europe/Dublin ---\<newline>09:30 | at desk\<newline>'')
   \<and> TrimSpace ''09:30 | at desk'' \<noteq> []"
proof -
  have t: "TrimSpace ''  09:30 | one\<newline>two \<newline>'' = ''09:30 | one\<newline>two''"
    by (simp add: trim_defs)
  have ne: "TrimSpace ''  09:30 | one\<newline>two \<newline>'' \<noteq> []"
    by (simp only: t) simp
  note A = snippet_single_line [of "''  09:30 | one\<newline>two \<newline>''" example_env
      "[''/Users/saser'', ''.snip'', ''2024-11-20.txt'']" "[]", THEN conjunct1, THEN mp, OF ne]
  from A
  have "snippet_line ''  09:30 | one\<newline>two \<newline>''
          = Inr (map (\<lambda>c. if c = newline then CHR '' '' else c)
                   (TrimSpace ''  09:30 | one\<newline>two \<newline>'') @ [newline])"
    by blast
  then have "snippet_line ''  09:30 | one\<newline>two \<newline>''
          = Inr (map (\<lambda>c. if c = newline then CHR '' '' else c) ''09:30 | one\<newline>two''
                 @ [newline])"
    by (simp only: t)
  then have l: "snippet_line ''  09:30 | one\<newline>two \<newline>'' = Inr ''09:30 | one two\<newline>''"
    by simp
  have w: "written (run example_env)
       = Some ([''/Users/saser'', ''.snip'', ''2024-11-20.txt''],
           ''--- Wednesday Nov 20 2024 in Europe/Dublin ---\<newline>09:30 | at desk\<newline>'')"
    by (simp add: example_run)
  note B = snippet_single_line [of "''09:30 | at desk''" example_env
      "[''/Users/saser'', ''.snip'', ''2024-11-20.txt'']"
      "''--- Wednesday Nov 20 2024 in Europe/Dublin ---\<newline>09:30 | at desk\<newline>''",
      THEN conjunct2, THEN mp, OF conjI [OF example_edit_snippet w]]
  from B have n: "TrimSpace ''09:30 | at desk'' \<noteq> []" by (rule conjunct1)
  from t l example_edit_snippet w n show ?thesis by blast
qed

text \<open>
  C7. Assembling with header inclusion enabled gives an output that starts with \<open>---\<close>,
  so assembling again on that output, header inclusion still enabled, puts no header
  before it: the second output is the first one, the separator and the second snippet,
  and it holds the header emitted by the first assembly, if any, and no other.
\<close>

theorem second_assembly_no_header:
  "HasPrefix (assemble True existing t1 tz1 s1) ''---''
   \<and> assemble True (assemble True existing t1 tz1 s1) t2 tz2 s2 =
       assemble True existing t1 tz1 s1
       @ (if last (assemble True existing t1 tz1 s1) \<noteq> newline then [newline] else [])
       @ s2
   \<and> assemble True (assemble True existing t1 tz1 s1) t2 tz2 s2 =
       (if \<not> HasPrefix existing ''---'' then header t1 (timezone_or_placeholder tz1) else [])
       @ existing
       @ (if existing \<noteq> [] \<and> last existing \<noteq> newline then [newline] else [])
       @ s1
       @ (if last (assemble True existing t1 tz1 s1) \<noteq> newline then [newline] else [])
       @ s2"
proof -
  have m: "HasPrefix (assemble True existing t1 tz1 s1) ''---''"
  proof (cases "HasPrefix existing ''---''")
    case True
    then show ?thesis by (auto simp: assemble_parts HasPrefix_def)
  next
    case False
    with header_marker [of t1 "timezone_or_placeholder tz1"] show ?thesis
      by (auto simp: assemble_parts HasPrefix_def)
  qed
  then have ne: "assemble True existing t1 tz1 s1 \<noteq> []" by (auto simp: HasPrefix_def)
  have "assemble True (assemble True existing t1 tz1 s1) t2 tz2 s2 =
       assemble True existing t1 tz1 s1
       @ (if last (assemble True existing t1 tz1 s1) \<noteq> newline then [newline] else [])
       @ s2"
    using m ne by (subst assemble_parts) simp
  with m show ?thesis by (simp add: assemble_parts)
qed

theorem second_assembly_no_header_witness:
  "assemble True
     (assemble True [] example_now (Inr ''Europe/Dublin'') ''09:30 | at desk\<newline>'')
     example_now (Inr ''Europe/Dublin'') ''09:53 | reviewed\<newline>''
   = ''--- Wednesday Nov 20 2024 in Europe/Dublin ---\<newline>09:30 | at desk\<newline>09:53 | reviewed\<newline>''"
  using second_assembly_no_header [of "[]" example_now "Inr ''Europe/Dublin''"
      "''09:30 | at desk\<newline>''" example_now "Inr ''Europe/Dublin''"
      "''09:53 | reviewed\<newline>''"]
  by (simp add: assemble_parts timezone_or_placeholder_def example_header HasPrefix_def)

text \<open>
  C8. The header is formatted by \<open>now.Format\<close> with a layout that contains the
  timezone name, so the name is read as layout text. A name without layout elements
  comes out as it is (\<open>header_plain\<close>), and the README's example gives the bytes that
  the specification lists for it (\<open>example_run\<close>). A name with a layout element does
  not come out as it is: with \<open>TZ=Etc/GMT+5\<close>, a zone of the IANA database, the \<open>5\<close> is
  the layout element for the seconds, and at 09:30:47 the header reads \<open>Etc/GMT+47\<close>.
\<close>

theorem header_timezone_read_as_layout:
  "inferLocalTimezone
     (example_env\<lparr>TZ := ''Etc/GMT+5'',
        now := example_now\<lparr>zone_name := ''-05'', zone_offset := - 18000\<rparr>\<rparr>)
     = Inr ''Etc/GMT+5''
   \<and> header (example_now\<lparr>zone_name := ''-05'', zone_offset := - 18000\<rparr>) ''Etc/GMT+5''
       = ''--- Wednesday Nov 20 2024 in Etc/GMT+47 ---\<newline>''
   \<and> run (example_env\<lparr>TZ := ''Etc/GMT+5'',
          now := example_now\<lparr>zone_name := ''-05'', zone_offset := - 18000\<rparr>\<rparr>) =
       \<lparr>err = None,
        written = Some ([''/Users/saser'', ''.snip'', ''2024-11-20.txt''],
          ''--- Wednesday Nov 20 2024 in Etc/GMT+47 ---\<newline>09:30 | at desk\<newline>''),
        logged = []\<rparr>"
proof -
  let ?t = "example_now\<lparr>zone_name := ''-05'', zone_offset := - 18000\<rparr>"
  let ?e = "example_env\<lparr>TZ := ''Etc/GMT+5'', now := ?t\<rparr>"
  let ?p = "[''/Users/saser'', ''.snip'', ''2024-11-20.txt'']"
  have tz: "inferLocalTimezone ?e = Inr ''Etc/GMT+5''"
    by (simp add: inferLocalTimezone_def example_env_def)
  have d: "header_date ?t = ''--- Wednesday Nov 20 2024''"
    by (simp add: header_date_def time_defs example_now_def)
  have "Format ?t ('' in '' @ ''Etc/GMT+5'' @ '' ---'') = '' in Etc/GMT+47 ---''"
    by (simp add: Format_def layout_defs time_defs example_now_def)
  then have h: "header ?t ''Etc/GMT+5'' = ''--- Wednesday Nov 20 2024 in Etc/GMT+47 ---\<newline>''"
    by (simp add: header_split d)
  have ts: "Format ?t ''15:04'' = ''09:30''"
    by (simp add: Format_def layout_defs time_defs example_now_def)
  have e: "edit_snippet ?e = Inr ''09:30 | at desk''"
    by (simp add: edit_snippet_def example_env_def ts)
  have z: "\<not> IsZero ?t"
    by (simp add: time_defs example_now_def)
  have dt: "Format ?t ''2006-01-02'' = ''2024-11-20''"
    by (simp add: Format_def layout_defs time_defs example_now_def)
  have p: "snippetPath ?e (now ?e) = Inr ?p"
    by (simp add: snippetPath_def baseDir_def example_env_def z dt)
  have "run ?e =
           \<lparr>err = None,
            written = Some (?p,
              assemble True [] ?t (Inr ''Etc/GMT+5'') ''09:30 | at desk\<newline>''),
            logged = []\<rparr>"
    using run_reaches_write [OF _ _ e _ example_snippet_line p]
    by (simp add: tz assemble_log_def) (simp add: example_env_def)
  then have "run ?e =
       \<lparr>err = None,
        written = Some (?p,
          ''--- Wednesday Nov 20 2024 in Etc/GMT+47 ---\<newline>09:30 | at desk\<newline>''),
        logged = []\<rparr>"
    by (simp add: assemble_parts timezone_or_placeholder_def h HasPrefix_def)
  with tz h show ?thesis by blast
qed

text \<open>
  C9. The inference of the timezone is not the only failure kept from the caller:
  when \<open>os.Remove\<close> of the temporary file fails in the deferred function, \<open>run\<close> logs
  the failure and still returns \<open>nil\<close>, here with the timezone resolved.
\<close>

theorem remove_failure_not_returned:
  "\<not> Remove_temp_ok (example_env\<lparr>Remove_temp_ok := False\<rparr>)
   \<and> inferLocalTimezone (example_env\<lparr>Remove_temp_ok := False\<rparr>) = Inr ''Europe/Dublin''
   \<and> err (run (example_env\<lparr>Remove_temp_ok := False\<rparr>)) = None
   \<and> logged (run (example_env\<lparr>Remove_temp_ok := False\<rparr>)) = [LogRemoveTempFailed]"
proof -
  let ?e = "example_env\<lparr>Remove_temp_ok := False\<rparr>"
  let ?p = "[''/Users/saser'', ''.snip'', ''2024-11-20.txt'']"
  have tz: "inferLocalTimezone ?e = Inr ''Europe/Dublin''"
    by (simp add: inferLocalTimezone_def example_env_def)
  have e: "edit_snippet ?e = Inr ''09:30 | at desk''"
    by (simp add: edit_snippet_def example_env_def example_timestamp)
  have p: "snippetPath ?e (now ?e) = Inr ?p"
    by (simp add: example_env_def example_path)
  have "err (run ?e) = None \<and> logged (run ?e) = [LogRemoveTempFailed]"
    using run_reaches_write [OF _ _ e _ example_snippet_line p]
    by (simp add: tz assemble_log_def) (simp add: example_env_def)
  with tz show ?thesis by (simp add: example_env_def)
qed

text \<open>
  C9, amended. When the timezone cannot be inferred and every other step succeeds,
  \<open>run\<close> returns \<open>nil\<close>, logs the inference error, and the header it writes names
  \<open><unknown timezone>\<close>. And when \<open>run\<close> returns \<open>nil\<close>, every step other than the
  timezone inference and the removal of the temporary file has succeeded: the flag
  \<open>-time_format\<close> is not empty, the temporary file was created, written and read, the
  editor (when opened) exited without error, the snippet is not empty, the path was
  resolved, the directory was made, reading the day file did not fail (a missing file
  counts as empty content), and the file was written.
\<close>

theorem timezone_failure_not_fatal:
  "(inferLocalTimezone e = Inl er \<and> timeFormat e \<noteq> [] \<and> CreateTemp_ok e
      \<and> edit_snippet e = Inr tmp \<and> ReadFile_temp_ok e \<and> snippet_line tmp = Inr snippet
      \<and> snippetPath e (now e) = Inr path \<and> MkdirAll_ok e \<and> ReadFile e path \<noteq> ReadFailed
      \<and> WriteFile_ok e \<and> includeHeader e
      \<and> existing = (case ReadFile e path of Contents bs \<Rightarrow> bs | _ \<Rightarrow> [])
      \<and> \<not> HasPrefix existing ''---''
    \<longrightarrow> err (run e) = None
        \<and> written (run e) =
            Some (path,
              header_date (now e) @ '' in <unknown timezone> ---\<newline>'' @ existing
              @ (if existing \<noteq> [] \<and> last existing \<noteq> newline then [newline] else [])
              @ snippet)
        \<and> logged (run e) =
            LogInferTimezoneFailed er # (if Remove_temp_ok e then [] else [LogRemoveTempFailed]))
   \<and> (err (run e) = None \<longrightarrow>
        timeFormat e \<noteq> [] \<and> CreateTemp_ok e \<and> WriteString_timestamp_ok e
        \<and> (message e \<noteq> [] \<longrightarrow> WriteString_title_ok e)
        \<and> (edit e \<or> message e = [] \<longrightarrow>
             run_editor e (if EDITOR e \<noteq> [] then EDITOR e else ''vim'')
               (Format (now e) (timeFormat e) @ '' | '' @ message e) \<noteq> None)
        \<and> ReadFile_temp_ok e
        \<and> (\<forall>raw. edit_snippet e = Inr raw \<longrightarrow> TrimSpace raw \<noteq> [])
        \<and> \<not> IsZero (now e) \<and> UserHomeDir e \<noteq> None \<and> MkdirAll_ok e
        \<and> (\<forall>p. snippetPath e (now e) = Inr p \<longrightarrow> ReadFile e p \<noteq> ReadFailed)
        \<and> WriteFile_ok e)"
proof (intro conjI impI)
  assume a: "inferLocalTimezone e = Inl er \<and> timeFormat e \<noteq> [] \<and> CreateTemp_ok e
      \<and> edit_snippet e = Inr tmp \<and> ReadFile_temp_ok e \<and> snippet_line tmp = Inr snippet
      \<and> snippetPath e (now e) = Inr path \<and> MkdirAll_ok e \<and> ReadFile e path \<noteq> ReadFailed
      \<and> WriteFile_ok e \<and> includeHeader e
      \<and> existing = (case ReadFile e path of Contents bs \<Rightarrow> bs | _ \<Rightarrow> [])
      \<and> \<not> HasPrefix existing ''---''"
  then have f: "timeFormat e \<noteq> []" "CreateTemp_ok e" "edit_snippet e = Inr tmp"
    "ReadFile_temp_ok e" "snippet_line tmp = Inr snippet" "snippetPath e (now e) = Inr path"
    "MkdirAll_ok e" "ReadFile e path \<noteq> ReadFailed" "WriteFile_ok e"
    by blast+
  from a have g: "inferLocalTimezone e = Inl er" "includeHeader e"
    "(case ReadFile e path of Contents bs \<Rightarrow> bs | _ \<Rightarrow> []) = existing"
    "\<not> HasPrefix existing ''---''"
    by blast+
  have r: "run e =
           \<lparr>err = None,
            written = Some (path, assemble True existing (now e) (Inl er) snippet),
            logged = assemble_log True existing (Inl er)
              @ (if Remove_temp_ok e then [] else [LogRemoveTempFailed])\<rparr>"
    using run_reaches_write [OF f] by (simp only: g simp_thms)
  have "plain_layout (''<unknown timezone>'' @ '' ---'')"
    by (simp add: plain_layout_def layout_defs)
  then have h: "header (now e) ''<unknown timezone>''
           = header_date (now e) @ '' in <unknown timezone> ---\<newline>''"
    by (simp add: header_plain)
  have as: "assemble True existing (now e) (Inl er) snippet =
              header_date (now e) @ '' in <unknown timezone> ---\<newline>'' @ existing
              @ (if existing \<noteq> [] \<and> last existing \<noteq> newline then [newline] else [])
              @ snippet"
    using g(4) by (simp add: assemble_parts timezone_or_placeholder_def h)
  have lg: "assemble_log True existing (Inl er) = [LogInferTimezoneFailed er]"
    using g(4) by (simp add: assemble_log_def)
  show "err (run e) = None" by (simp only: r outcome.simps)
  show "written (run e) =
            Some (path,
              header_date (now e) @ '' in <unknown timezone> ---\<newline>'' @ existing
              @ (if existing \<noteq> [] \<and> last existing \<noteq> newline then [newline] else [])
              @ snippet)"
    by (simp only: r as outcome.simps)
  show "logged (run e) =
            LogInferTimezoneFailed er # (if Remove_temp_ok e then [] else [LogRemoveTempFailed])"
    by (simp only: r lg outcome.simps append.simps)
next
  assume n: "err (run e) = None"
  from run_nil_reached_write [OF n] obtain tmp snippet path where
    b: "timeFormat e \<noteq> []" "CreateTemp_ok e" "ReadFile_temp_ok e" "MkdirAll_ok e"
       "WriteFile_ok e" "edit_snippet e = Inr tmp" "snippet_line tmp = Inr snippet"
       "snippetPath e (now e) = Inr path" "ReadFile e path \<noteq> ReadFailed"
    by blast
  from b show "timeFormat e \<noteq> []" "CreateTemp_ok e" "ReadFile_temp_ok e" "MkdirAll_ok e"
    "WriteFile_ok e"
    by simp_all
  from edit_snippet_Inr [OF b(6)] show "WriteString_timestamp_ok e" by simp
  from snippetPath_Inr [OF b(8)] show "\<not> IsZero (now e)" "UserHomeDir e \<noteq> None"
    by simp_all
  from b(6,7) show "\<forall>raw. edit_snippet e = Inr raw \<longrightarrow> TrimSpace raw \<noteq> []"
    by (simp add: snippet_line_Inr)
  from b(8,9) show "\<forall>p. snippetPath e (now e) = Inr p \<longrightarrow> ReadFile e p \<noteq> ReadFailed"
    by simp
  {
    assume "message e \<noteq> []"
    with edit_snippet_Inr [OF b(6)] show "WriteString_title_ok e" by simp
  }
  {
    assume "edit e \<or> message e = []"
    with edit_snippet_Inr [OF b(6)]
    show "run_editor e (if EDITOR e \<noteq> [] then EDITOR e else ''vim'')
               (Format (now e) (timeFormat e) @ '' | '' @ message e) \<noteq> None"
      by simp
  }
qed

theorem timezone_failure_not_fatal_witness:
  "inferLocalTimezone (example_env\<lparr>TZ := []\<rparr>) = Inl ErrEvalSymlinks
   \<and> run (example_env\<lparr>TZ := []\<rparr>) =
       \<lparr>err = None,
        written = Some ([''/Users/saser'', ''.snip'', ''2024-11-20.txt''],
          ''--- Wednesday Nov 20 2024 in <unknown timezone> ---\<newline>09:30 | at desk\<newline>''),
        logged = [LogInferTimezoneFailed ErrEvalSymlinks]\<rparr>
   \<and> WriteFile_ok (example_env\<lparr>TZ := []\<rparr>)"
proof -
  let ?e = "example_env\<lparr>TZ := []\<rparr>"
  let ?p = "[''/Users/saser'', ''.snip'', ''2024-11-20.txt'']"
  note T = timezone_failure_not_fatal [of ?e ErrEvalSymlinks "''09:30 | at desk''"
      "''09:30 | at desk\<newline>''" ?p "[]"]
  have tz: "inferLocalTimezone ?e = Inl ErrEvalSymlinks"
    by (simp add: inferLocalTimezone_def example_env_def)
  have e: "edit_snippet ?e = Inr ''09:30 | at desk''"
    by (simp add: edit_snippet_def example_env_def example_timestamp)
  have p: "snippetPath ?e (now ?e) = Inr ?p"
    by (simp add: example_env_def example_path)
  have o: "timeFormat ?e \<noteq> []" "CreateTemp_ok ?e" "ReadFile_temp_ok ?e" "MkdirAll_ok ?e"
    "ReadFile ?e ?p \<noteq> ReadFailed" "WriteFile_ok ?e" "includeHeader ?e"
    by (simp_all add: example_env_def)
  have x: "[] = (case ReadFile ?e ?p of Contents bs \<Rightarrow> bs | _ \<Rightarrow> [])"
    by (simp add: example_env_def)
  have m: "\<not> HasPrefix [] ''---''" by (simp add: HasPrefix_def)
  have hyp: "inferLocalTimezone ?e = Inl ErrEvalSymlinks \<and> timeFormat ?e \<noteq> []
      \<and> CreateTemp_ok ?e \<and> edit_snippet ?e = Inr ''09:30 | at desk'' \<and> ReadFile_temp_ok ?e
      \<and> snippet_line ''09:30 | at desk'' = Inr ''09:30 | at desk\<newline>''
      \<and> snippetPath ?e (now ?e) = Inr ?p \<and> MkdirAll_ok ?e \<and> ReadFile ?e ?p \<noteq> ReadFailed
      \<and> WriteFile_ok ?e \<and> includeHeader ?e
      \<and> [] = (case ReadFile ?e ?p of Contents bs \<Rightarrow> bs | _ \<Rightarrow> [])
      \<and> \<not> HasPrefix [] ''---''"
    using tz e p o x m example_snippet_line by blast
  note C = T [THEN conjunct1, THEN mp, OF hyp]
  note c = C [THEN conjunct1] C [THEN conjunct2, THEN conjunct1]
    C [THEN conjunct2, THEN conjunct2]
  have n: "now ?e = example_now" and rm: "Remove_temp_ok ?e"
    by (simp_all add: example_env_def)
  from c(2) have w: "written (run ?e) = Some (?p,
          ''--- Wednesday Nov 20 2024 in <unknown timezone> ---\<newline>09:30 | at desk\<newline>'')"
    by (simp add: n example_header_date)
  from c(3) have l: "logged (run ?e) = [LogInferTimezoneFailed ErrEvalSymlinks]"
    by (simp add: rm)
  from T [THEN conjunct2, THEN mp, OF c(1)] have wf: "WriteFile_ok ?e" by blast
  from c(1) w l have "run ?e =
       \<lparr>err = None,
        written = Some (?p,
          ''--- Wednesday Nov 20 2024 in <unknown timezone> ---\<newline>09:30 | at desk\<newline>''),
        logged = [LogInferTimezoneFailed ErrEvalSymlinks]\<rparr>"
    by (cases "run ?e") simp
  with tz wf show ?thesis by blast
qed

text \<open>
  C10. When \<open>run\<close> returns no error it has written a file, and the bytes written are
  not empty and end with a newline.
\<close>

theorem output_ends_with_newline:
  assumes "err (run e) = None"
  shows "\<exists>path bs. written (run e) = Some (path, bs) \<and> bs \<noteq> [] \<and> last bs = newline"
proof -
  from run_nil_written [OF assms] obtain path tmp snippet where
    s: "snippet_line tmp = Inr snippet" and
    w: "written (run e) = Some (path,
          assemble (includeHeader e) (case ReadFile e path of Contents bs \<Rightarrow> bs | _ \<Rightarrow> [])
            (now e) (inferLocalTimezone e) snippet)"
    by blast
  from s have "snippet \<noteq> []" and "last snippet = newline"
    by (auto dest: snippet_line_head)
  then have "assemble inc ex t tz snippet \<noteq> [] \<and> last (assemble inc ex t tz snippet) = newline"
    for inc ex t tz
    by (simp add: assemble_parts)
  with w show ?thesis by blast
qed

theorem output_ends_with_newline_witness:
  "err (run example_env) = None
   \<and> written (run example_env)
       = Some ([''/Users/saser'', ''.snip'', ''2024-11-20.txt''],
           ''--- Wednesday Nov 20 2024 in Europe/Dublin ---\<newline>09:30 | at desk\<newline>'')
   \<and> last ''--- Wednesday Nov 20 2024 in Europe/Dublin ---\<newline>09:30 | at desk\<newline>''
       = newline"
proof -
  have "err (run example_env) = None" by (simp add: example_run)
  from this output_ends_with_newline [OF this] show ?thesis
    by (simp add: example_run)
qed

end
